theory Spec2Isabelle
  imports Complex_Main "HOL-Library.Multiset" "HOL-Library.Word" "HOL-Library.Log_Nat"
begin

unbundle bit_operations_syntax

section \<open>The poll actor: storage model\<close>

text \<open>
  The Durable Object \<open>PollVoteCounter\<close> keeps its data in three SQLite tables
  (\<open>poll\<close>, \<open>answers\<close>, \<open>votes\<close>) and, for the instance used as poll index, a
  fourth one (\<open>poll_index\<close>). Every table is modelled as the list of its rows in
  insertion order; the \<open>poll\<close> table, which \<open>handleCreate\<close> only fills when it is
  empty and which every handler reads with \<open>LIMIT 1\<close>, is an optional row.

  Identifiers produced by \<open>crypto.randomUUID()\<close> are opaque: they are modelled as
  natural numbers drawn from a supply (\<open>next_uuid\<close>) that never hands out the same
  value twice. Instants (\<open>Date.now()\<close>) are integers supplied by the caller of each
  handler. A string is the list of its code units, so \<open>length\<close> is the
  \<open>.length\<close> of the source.
\<close>

type_synonym ident = nat

datatype poll_status = Draft | Published | Closed

record PollData =
  poll_id :: string
  question :: string
  status :: poll_status
  created_at :: int
  updated_at :: int
  published_at :: "int option"
  closed_at :: "int option"
  reset_count :: nat

record AnswerData =
  answer_id :: ident
  answer_text :: string
  display_order :: nat

record VoteData =
  vote_id :: ident
  vote_answer_id :: ident
  voter_fingerprint :: string
  voted_at :: int

record IndexRow =
  ix_poll_id :: string
  ix_created_at :: int

record state =
  poll :: "PollData option"
  answers :: "AnswerData list"
  votes :: "VoteData list"
  poll_index :: "IndexRow list"
  next_uuid :: nat

definition init_state :: state where
  "init_state = \<lparr>poll = None, answers = [], votes = [], poll_index = [], next_uuid = 0\<rparr>"

text \<open>\<open>crypto.randomUUID()\<close>: the next identifier of the supply.\<close>

definition randomUUID :: "state \<Rightarrow> ident \<times> state" where
  "randomUUID s = (next_uuid s, s\<lparr>next_uuid := Suc (next_uuid s)\<rparr>)"

subsection \<open>Responses\<close>

text \<open>
  The rows of the counting query of \<open>handleGet\<close> (\<open>VoteCount\<close> in the source) and
  of \<open>getVoteCounts\<close>/\<open>getVoteCountsData\<close>. Counts are integers far below
  \<open>2^53\<close>, where JavaScript numbers are exact; a percentage is a double, given as
  the real number it denotes.
\<close>

record VoteCount =
  vc_answer_id :: ident
  vc_answer_text :: string
  vc_display_order :: nat
  vc_votes :: nat
  vc_percentage :: real

record PollWithAnswers =
  pw_poll :: PollData
  pw_answers :: "VoteCount list"
  pw_totalVotes :: nat

record TallyRow =
  answerId :: ident
  tally_votes :: nat
  percentage :: real

record Tally =
  totalVotes :: nat
  tally_answers :: "TallyRow list"

text \<open>
  A response of the actor: \<open>JsonError status message\<close> is
  \<open>Response.json({ error: message }, { status })\<close>; the other constructors are the
  bodies of the successful responses of the handlers.
\<close>

datatype response =
    JsonError nat string
  | Created string
  | PollJson PollWithAnswers
  | Deleted
  | TallyJson Tally
  | CheckVotedJson bool "ident option"
  | IndexJson "string list"
  | SuccessJson

subsection \<open>The counting queries\<close>

text \<open>
  \<open>SELECT a.id, ..., COUNT(v.id) FROM answers a LEFT JOIN votes v ON v.answer_id = a.id
  GROUP BY a.id ORDER BY a.display_order\<close>: \<open>answers.id\<close> is the primary key, so each
  answer row is a group of its own, and its count is the number of vote rows that
  reference it.
\<close>

definition count_votes :: "state \<Rightarrow> ident \<Rightarrow> nat" where
  "count_votes s a = length (filter (\<lambda>v. vote_answer_id v = a) (votes s))"

definition answersWithCounts :: "state \<Rightarrow> (AnswerData \<times> nat) list" where
  "answersWithCounts s =
     sort_key (\<lambda>r. display_order (fst r)) (map (\<lambda>a. (a, count_votes s (answer_id a))) (answers s))"

text \<open>\<open>answersWithCounts.reduce((sum, a) => sum + Number(a.votes), 0)\<close>\<close>

definition reduce_votes :: "(AnswerData \<times> nat) list \<Rightarrow> nat" where
  "reduce_votes rows = foldl (\<lambda>sum r. sum + snd r) 0 rows"

text \<open>
  The source computes \<open>(Number(a.votes) / totalVotes) * 100\<close> on JavaScript
  numbers, which are IEEE 754 binary64 values: every operation returns the exact
  result rounded to the nearest value with a 53-bit significand, ties to the even
  one. A double is represented by the rational it denotes. \<open>binary64_exponent x\<close>
  is the \<open>e\<close> with \<open>2^e \<le> x < 2^(e+1)\<close>; below \<open>2^-1022\<close> the spacing of the
  subnormal numbers is used. Overflow to infinity is left out: the operands are
  counts of rows, 64-bit integers in SQLite, and their quotients.
\<close>

definition round_half_even :: "rat \<Rightarrow> int" where
  "round_half_even x =
     (let f = \<lfloor>x\<rfloor>; d = x - of_int f
      in if d < 1 / 2 then f else if 1 / 2 < d then f + 1 else if even f then f else f + 1)"

definition binary64_exponent :: "rat \<Rightarrow> int" where
  "binary64_exponent x =
     (let (a, b) = quotient_of x; e = bitlen a - bitlen b
      in if 2 powi e \<le> x then e else e - 1)"

definition binary64_round :: "rat \<Rightarrow> rat" where
  "binary64_round x =
     (if x = 0 then 0
      else (let e = max (binary64_exponent \<bar>x\<bar>) (- 1022); q = 2 powi (e - 52)
            in sgn x * of_int (round_half_even (\<bar>x\<bar> / q)) * q))"

text \<open>\<open>Number(a.votes)\<close>, the quotient and the product of two doubles.\<close>

definition Number :: "nat \<Rightarrow> rat" where
  "Number n = binary64_round (of_nat n)"

definition binary64_div :: "rat \<Rightarrow> rat \<Rightarrow> rat" where
  "binary64_div x y = binary64_round (x / y)"

definition binary64_mul :: "rat \<Rightarrow> rat \<Rightarrow> rat" where
  "binary64_mul x y = binary64_round (x * y)"

text \<open>\<open>totalVotes > 0 ? (Number(a.votes) / totalVotes) * 100 : 0\<close>\<close>

definition percentage_of :: "nat \<Rightarrow> nat \<Rightarrow> real" where
  "percentage_of v tot =
     (if tot > 0 then of_rat (binary64_mul (binary64_div (Number v) (Number tot)) 100) else 0)"

definition getVoteCountsData :: "state \<Rightarrow> Tally" where
  "getVoteCountsData s =
     (let rows = answersWithCounts s;
          tot = reduce_votes rows
      in \<lparr>totalVotes = tot,
          tally_answers = map (\<lambda>r. \<lparr>answerId = answer_id (fst r), tally_votes = snd r,
                                     percentage = percentage_of (snd r) tot\<rparr>) rows\<rparr>)"

definition getVoteCounts :: "state \<Rightarrow> response" where
  "getVoteCounts s = TallyJson (getVoteCountsData s)"

definition handleGet :: "state \<Rightarrow> response" where
  "handleGet s =
     (case poll s of
        None \<Rightarrow> JsonError 404 ''Poll not found''
      | Some p \<Rightarrow>
          (let rows = answersWithCounts s;
               tot = reduce_votes rows
           in PollJson \<lparr>pw_poll = p,
                pw_answers = map (\<lambda>r. \<lparr>vc_answer_id = answer_id (fst r),
                                        vc_answer_text = answer_text (fst r),
                                        vc_display_order = display_order (fst r),
                                        vc_votes = snd r,
                                        vc_percentage = percentage_of (snd r) tot\<rparr>) rows,
                pw_totalVotes = tot\<rparr>))"

section \<open>The poll actor: handlers\<close>

text \<open>
  The loop \<open>for (let i = 0; i < answers.length; i++)\<close> of \<open>handleCreate\<close> and
  \<open>handleUpdate\<close>: one fresh identifier and one inserted row per answer text, with
  the loop index as \<open>display_order\<close>.
\<close>

fun insert_answers :: "string list \<Rightarrow> nat \<Rightarrow> state \<Rightarrow> state" where
  "insert_answers [] i s = s"
| "insert_answers (t # ts) i s =
     (let (answerId, s1) = randomUUID s
      in insert_answers ts (Suc i)
           (s1\<lparr>answers := answers s1 @
                  [\<lparr>answer_id = answerId, answer_text = t, display_order = i\<rparr>]\<rparr>))"

definition handleCreate :: "string \<Rightarrow> string \<Rightarrow> string list \<Rightarrow> int \<Rightarrow> state \<Rightarrow> response \<times> state" where
  "handleCreate pid q texts now s =
     (case poll s of
        Some p \<Rightarrow> (JsonError 400 ''Poll already exists in this DO'', s)
      | None \<Rightarrow>
          (let s1 = s\<lparr>poll := Some \<lparr>poll_id = pid, question = q, status = Draft,
                                     created_at = now, updated_at = now,
                                     published_at = None, closed_at = None,
                                     reset_count = 0\<rparr>\<rparr>;
               s2 = insert_answers texts 0 s1
           in (Created pid, s2)))"

text \<open>\<open>UPDATE poll SET ...\<close> has no \<open>WHERE\<close>: it rewrites the row when there is one.\<close>

definition update_poll :: "(PollData \<Rightarrow> PollData) \<Rightarrow> state \<Rightarrow> state" where
  "update_poll f s = s\<lparr>poll := map_option f (poll s)\<rparr>"

definition handleUpdate :: "string option \<Rightarrow> string list option \<Rightarrow> int \<Rightarrow> state \<Rightarrow> response \<times> state" where
  "handleUpdate q texts now s =
     (case poll s of
        None \<Rightarrow> (JsonError 404 ''Poll not found'', s)
      | Some p \<Rightarrow>
          if status p \<noteq> Draft then (JsonError 400 ''Can only update draft polls'', s)
          else
            (let s1 = (case q of
                         None \<Rightarrow> s
                       | Some q' \<Rightarrow> update_poll (\<lambda>r. r\<lparr>question := q', updated_at := now\<rparr>) s);
                 s2 = (case texts of
                         None \<Rightarrow> s1
                       | Some ts \<Rightarrow>
                           update_poll (\<lambda>r. r\<lparr>updated_at := now\<rparr>)
                             (insert_answers ts 0 (s1\<lparr>answers := []\<rparr>)))
             in (handleGet s2, s2)))"

definition handlePublish :: "int \<Rightarrow> state \<Rightarrow> response \<times> state" where
  "handlePublish now s =
     (case poll s of
        None \<Rightarrow> (JsonError 404 ''Poll not found'', s)
      | Some p \<Rightarrow>
          if status p \<noteq> Draft then (JsonError 400 ''Poll is not in draft status'', s)
          else
            (let s1 = update_poll (\<lambda>r. r\<lparr>status := Published, published_at := Some now,
                                          updated_at := now\<rparr>) s
             in (handleGet s1, s1)))"

definition handleClose :: "int \<Rightarrow> state \<Rightarrow> response \<times> state" where
  "handleClose now s =
     (case poll s of
        None \<Rightarrow> (JsonError 404 ''Poll not found'', s)
      | Some p \<Rightarrow>
          if status p \<noteq> Published then (JsonError 400 ''Poll is not published'', s)
          else
            (let s1 = update_poll (\<lambda>r. r\<lparr>status := Closed, closed_at := Some now,
                                          updated_at := now\<rparr>) s
             in (handleGet s1, s1)))"

definition handleDelete :: "state \<Rightarrow> response \<times> state" where
  "handleDelete s =
     (case poll s of
        None \<Rightarrow> (JsonError 404 ''Poll not found'', s)
      | Some p \<Rightarrow> (Deleted, s\<lparr>votes := [], answers := [], poll := None\<rparr>))"

definition handleReset :: "int \<Rightarrow> state \<Rightarrow> response \<times> state" where
  "handleReset now s =
     (case poll s of
        None \<Rightarrow> (JsonError 404 ''Poll not found'', s)
      | Some p \<Rightarrow>
          (let s1 = update_poll (\<lambda>r. r\<lparr>reset_count := reset_count r + 1, updated_at := now\<rparr>)
                      (s\<lparr>votes := []\<rparr>)
           in (handleGet s1, s1)))"

text \<open>
  \<open>handleVote\<close>: the four checks and the insertion run without an \<open>await\<close> between
  them. The broadcast that follows the insertion writes to the attached streams only
  and does not touch the tables; the response is computed from the tables afterwards.
\<close>

definition handleVote :: "ident \<Rightarrow> string \<Rightarrow> int \<Rightarrow> state \<Rightarrow> response \<times> state" where
  "handleVote aid fp now s =
     (case poll s of
        None \<Rightarrow> (JsonError 404 ''Poll not found'', s)
      | Some p \<Rightarrow>
          if status p = Draft then (JsonError 400 ''Poll not published'', s)
          else if status p = Closed then (JsonError 400 ''Poll is closed'', s)
          else if filter (\<lambda>a. answer_id a = aid) (answers s) = []
            then (JsonError 400 ''Invalid answer'', s)
          else if filter (\<lambda>v. voter_fingerprint v = fp) (votes s) \<noteq> []
            then (JsonError 409 ''Already voted'', s)
          else
            (let (voteId, s1) = randomUUID s;
                 s2 = s1\<lparr>votes := votes s1 @
                            [\<lparr>vote_id = voteId, vote_answer_id = aid,
                              voter_fingerprint = fp, voted_at = now\<rparr>]\<rparr>
             in (getVoteCounts s2, s2)))"

definition handleCheckVoted :: "string \<Rightarrow> state \<Rightarrow> response" where
  "handleCheckVoted fp s =
     (case filter (\<lambda>v. voter_fingerprint v = fp) (votes s) of
        [] \<Rightarrow> CheckVotedJson False None
      | v # _ \<Rightarrow> CheckVotedJson True (Some (vote_answer_id v)))"

subsection \<open>The poll index\<close>

text \<open>
  \<open>SELECT poll_id FROM poll_index ORDER BY created_at DESC\<close>. SQL leaves the order
  of rows with equal \<open>created_at\<close> open; the model keeps them in table order.
\<close>

definition select_poll_index :: "state \<Rightarrow> IndexRow list" where
  "select_poll_index s = sort_key (\<lambda>r. - ix_created_at r) (poll_index s)"

definition handleGetIndex :: "state \<Rightarrow> response" where
  "handleGetIndex s = IndexJson (map ix_poll_id (select_poll_index s))"

text \<open>\<open>INSERT OR IGNORE\<close>: \<open>poll_id\<close> is the primary key, a present key is left alone.\<close>

definition handleAddToIndex :: "string \<Rightarrow> int \<Rightarrow> state \<Rightarrow> response \<times> state" where
  "handleAddToIndex pid now s =
     (if filter (\<lambda>r. ix_poll_id r = pid) (poll_index s) \<noteq> [] then (SuccessJson, s)
      else (SuccessJson,
            s\<lparr>poll_index := poll_index s @ [\<lparr>ix_poll_id = pid, ix_created_at = now\<rparr>]\<rparr>))"

definition handleRemoveFromIndex :: "string \<Rightarrow> state \<Rightarrow> response \<times> state" where
  "handleRemoveFromIndex pid s =
     (SuccessJson, s\<lparr>poll_index := filter (\<lambda>r. ix_poll_id r \<noteq> pid) (poll_index s)\<rparr>)"

subsection \<open>Dispatch\<close>

text \<open>
  One constructor per path of \<open>fetch\<close>, carrying the JSON body of the request and the
  instants the handler reads. \<open>/stream\<close> only registers a connection and is left out:
  it reads the tables and never writes them.
\<close>

datatype op =
    Create string string "string list" int
  | Get
  | Update "string option" "string list option" int
  | Publish int
  | Close int
  | Delete
  | Reset int
  | Vote ident string int
  | CheckVoted string
  | GetIndex
  | AddToIndex string int
  | RemoveFromIndex string

fun fetch :: "op \<Rightarrow> state \<Rightarrow> response \<times> state" where
  "fetch (Create pid q texts now) s = handleCreate pid q texts now s"
| "fetch Get s = (handleGet s, s)"
| "fetch (Update q texts now) s = handleUpdate q texts now s"
| "fetch (Publish now) s = handlePublish now s"
| "fetch (Close now) s = handleClose now s"
| "fetch Delete s = handleDelete s"
| "fetch (Reset now) s = handleReset now s"
| "fetch (Vote aid fp now) s = handleVote aid fp now s"
| "fetch (CheckVoted fp) s = (handleCheckVoted fp s, s)"
| "fetch GetIndex s = (handleGetIndex s, s)"
| "fetch (AddToIndex pid now) s = handleAddToIndex pid now s"
| "fetch (RemoveFromIndex pid) s = handleRemoveFromIndex pid s"

text \<open>
  The actor processes its requests one at a time, in arrival order: \<open>run\<close> is the
  state after a sequence of requests, \<open>responses\<close> the responses it produced.
\<close>

fun run :: "op list \<Rightarrow> state \<Rightarrow> state" where
  "run [] s = s"
| "run (x # xs) s = run xs (snd (fetch x s))"

fun responses :: "op list \<Rightarrow> state \<Rightarrow> response list" where
  "responses [] s = []"
| "responses (x # xs) s = fst (fetch x s) # responses xs (snd (fetch x s))"

section \<open>The workers in front of the actor\<close>

text \<open>
  The CMS worker and the embed worker reach an actor through
  \<open>POLL_COUNTER.idFromName(name)\<close>: every name has its own instance, created empty
  on first use. A namespace is the state of every instance by name.
\<close>

type_synonym namespace = "string \<Rightarrow> state"

definition POLL_INDEX_KEY :: string where
  "POLL_INDEX_KEY = ''poll-index''"

datatype ERROR_CODES =
    POLL_NOT_FOUND | POLL_NOT_PUBLISHED | POLL_CLOSED | POLL_IMMUTABLE | DUPLICATE_VOTE
  | INVALID_ANSWER | VALIDATION_ERROR | UNAUTHORIZED | INTERNAL_ERROR

text \<open>
  \<open>errorResponse(error, status, code)\<close> and \<open>jsonResponse(data, status)\<close>. The data
  of a successful response is the actor's body; \<open>transformPollResponse\<close> and the vote
  route only rename its fields.
\<close>

datatype api_response =
    ErrorResponse string nat ERROR_CODES
  | JsonResponse response nat

text \<open>\<open>response.ok\<close>: a status in the range 200 to 299.\<close>

fun ok :: "response \<Rightarrow> bool" where
  "ok (JsonError st msg) = (200 \<le> st \<and> st \<le> 299)"
| "ok r = True"

fun error_code :: "api_response \<Rightarrow> ERROR_CODES option" where
  "error_code (ErrorResponse msg st c) = Some c"
| "error_code (JsonResponse r st) = None"

subsection \<open>Creating and deleting a poll through the CMS worker\<close>

definition QUESTION_MIN_LENGTH :: nat where "QUESTION_MIN_LENGTH = 1"
definition QUESTION_MAX_LENGTH :: nat where "QUESTION_MAX_LENGTH = 500"
definition ANSWER_MIN_LENGTH :: nat where "ANSWER_MIN_LENGTH = 1"
definition ANSWER_MAX_LENGTH :: nat where "ANSWER_MAX_LENGTH = 200"
definition MIN_ANSWERS :: nat where "MIN_ANSWERS = 2"
definition MAX_ANSWERS :: nat where "MAX_ANSWERS = 10"

text \<open>
  \<open>createPollSchema.safeParse\<close> on a body whose \<open>question\<close> is a string and whose
  \<open>answers\<close> is an array of strings: the result is whether every check passes. The
  refinement compares \<open>new Set(answers).size\<close> with \<open>answers.length\<close>.
\<close>

definition createPollSchema :: "string \<Rightarrow> string list \<Rightarrow> bool" where
  "createPollSchema q texts =
     (QUESTION_MIN_LENGTH \<le> length q \<and> length q \<le> QUESTION_MAX_LENGTH \<and>
      list_all (\<lambda>a. ANSWER_MIN_LENGTH \<le> length a \<and> length a \<le> ANSWER_MAX_LENGTH) texts \<and>
      MIN_ANSWERS \<le> length texts \<and> length texts \<le> MAX_ANSWERS \<and>
      length (remdups texts) = length texts)"

text \<open>
  \<open>handleCreatePoll\<close>: \<open>pollId\<close> is the worker's \<open>crypto.randomUUID()\<close>, \<open>now\<close> and
  \<open>now'\<close> are the instants read by the poll's actor and by the index actor.
\<close>

definition handleCreatePoll ::
  "string \<Rightarrow> string list \<Rightarrow> string \<Rightarrow> int \<Rightarrow> int \<Rightarrow> namespace \<Rightarrow> api_response \<times> namespace" where
  "handleCreatePoll q texts pollId now now' w =
     (if \<not> createPollSchema q texts
      then (ErrorResponse ''Validation failed'' 400 VALIDATION_ERROR, w)
      else
        (let (r, s1) = handleCreate pollId q texts now (w pollId);
             w1 = w(pollId := s1)
         in if \<not> ok r
            then (case r of
                    JsonError st msg \<Rightarrow>
                      (ErrorResponse (if msg = [] then ''Failed to create poll'' else msg) st
                         INTERNAL_ERROR, w1)
                  | _ \<Rightarrow> (ErrorResponse ''Failed to create poll'' 500 INTERNAL_ERROR, w1))
            else
              (let w2 = w1(POLL_INDEX_KEY :=
                          snd (handleAddToIndex pollId now' (w1 POLL_INDEX_KEY)))
               in (JsonResponse (handleGet (w2 pollId)) 201, w2))))"

definition handleDeletePoll :: "string \<Rightarrow> namespace \<Rightarrow> api_response \<times> namespace" where
  "handleDeletePoll pollId w =
     (let (r, s1) = handleDelete (w pollId);
          w1 = w(pollId := s1)
      in if \<not> ok r
         then (case r of
                 JsonError st msg \<Rightarrow>
                   if st = 404 then (ErrorResponse ''Poll not found'' 404 POLL_NOT_FOUND, w1)
                   else (ErrorResponse ''Failed to delete poll'' 500 INTERNAL_ERROR, w1)
               | _ \<Rightarrow> (ErrorResponse ''Failed to delete poll'' 500 INTERNAL_ERROR, w1))
         else
           (let w2 = w1(POLL_INDEX_KEY :=
                       snd (handleRemoveFromIndex pollId (w1 POLL_INDEX_KEY)))
            in (JsonResponse Deleted 200, w2)))"

subsection \<open>The vote route of the embed worker\<close>

text \<open>
  The block \<open>if (!doResponse.ok) { ... }\<close> of the route \<open>handleVote\<close>: the status is
  looked at first, then the message.
\<close>

definition voteErrorResponse :: "nat \<Rightarrow> string \<Rightarrow> api_response" where
  "voteErrorResponse st msg =
     (if st = 404 then ErrorResponse ''Poll not found'' 404 POLL_NOT_FOUND
      else if st = 409 then ErrorResponse ''Already voted'' 409 DUPLICATE_VOTE
      else if msg = ''Poll not published''
        then ErrorResponse ''Poll not published'' 403 POLL_NOT_PUBLISHED
      else if msg = ''Poll is closed'' then ErrorResponse ''Poll is closed'' 403 POLL_CLOSED
      else if msg = ''Invalid answer'' then ErrorResponse ''Invalid answer ID'' 400 INVALID_ANSWER
      else ErrorResponse ''Failed to record vote'' 500 INTERNAL_ERROR)"

fun voteResponse :: "response \<Rightarrow> api_response" where
  "voteResponse (JsonError st msg) =
     (if ok (JsonError st msg) then JsonResponse (JsonError st msg) 200
      else voteErrorResponse st msg)"
| "voteResponse r = JsonResponse r 200"

subsection \<open>The voter fingerprint\<close>

text \<open>
  \<open>crypto.subtle.digest('SHA-256', bytes)\<close>, following FIPS 180-4: the message is
  padded to a multiple of 64 bytes and compressed block by block into eight 32-bit
  words, which are written out big-endian. The round constants and the initial
  hash value are written in decimal.
\<close>

type_synonym byte = "8 word"
type_synonym u32 = "32 word"

definition sha256_K :: "u32 list" where
  "sha256_K =
     [1116352408, 1899447441, 3049323471, 3921009573, 961987163, 1508970993,
      2453635748, 2870763221, 3624381080, 310598401, 607225278, 1426881987,
      1925078388, 2162078206, 2614888103, 3248222580, 3835390401, 4022224774,
      264347078, 604807628, 770255983, 1249150122, 1555081692, 1996064986,
      2554220882, 2821834349, 2952996808, 3210313671, 3336571891, 3584528711,
      113926993, 338241895, 666307205, 773529912, 1294757372, 1396182291,
      1695183700, 1986661051, 2177026350, 2456956037, 2730485921, 2820302411,
      3259730800, 3345764771, 3516065817, 3600352804, 4094571909, 275423344,
      430227734, 506948616, 659060556, 883997877, 958139571, 1322822218,
      1537002063, 1747873779, 1955562222, 2024104815, 2227730452, 2361852424,
      2428436474, 2756734187, 3204031479, 3329325298]"

definition sha256_H0 :: "u32 list" where
  "sha256_H0 =
     [1779033703, 3144134277, 1013904242, 2773480762,
      1359893119, 2600822924, 528734635, 1541459225]"

definition rotr :: "nat \<Rightarrow> u32 \<Rightarrow> u32" where
  "rotr n x = (drop_bit n x) OR (push_bit (32 - n) x)"

definition big_sigma0 :: "u32 \<Rightarrow> u32" where
  "big_sigma0 x = rotr 2 x XOR rotr 13 x XOR rotr 22 x"

definition big_sigma1 :: "u32 \<Rightarrow> u32" where
  "big_sigma1 x = rotr 6 x XOR rotr 11 x XOR rotr 25 x"

definition small_sigma0 :: "u32 \<Rightarrow> u32" where
  "small_sigma0 x = rotr 7 x XOR rotr 18 x XOR drop_bit 3 x"

definition small_sigma1 :: "u32 \<Rightarrow> u32" where
  "small_sigma1 x = rotr 17 x XOR rotr 19 x XOR drop_bit 10 x"

definition sha_ch :: "u32 \<Rightarrow> u32 \<Rightarrow> u32 \<Rightarrow> u32" where
  "sha_ch x y z = (x AND y) XOR (NOT x AND z)"

definition sha_maj :: "u32 \<Rightarrow> u32 \<Rightarrow> u32 \<Rightarrow> u32" where
  "sha_maj x y z = (x AND y) XOR (x AND z) XOR (y AND z)"

fun be32 :: "byte list \<Rightarrow> u32 list" where
  "be32 (a # b # c # d # rest) =
     (push_bit 24 (ucast a) OR push_bit 16 (ucast b) OR push_bit 8 (ucast c) OR ucast d) # be32 rest"
| "be32 rest = []"

fun sha256_schedule :: "nat \<Rightarrow> u32 list \<Rightarrow> u32 list" where
  "sha256_schedule 0 w = w"
| "sha256_schedule (Suc n) w =
     sha256_schedule n
       (w @ [small_sigma1 (w ! (length w - 2)) + w ! (length w - 7) +
             small_sigma0 (w ! (length w - 15)) + w ! (length w - 16)])"

fun sha256_rounds :: "(u32 \<times> u32) list \<Rightarrow> u32 list \<Rightarrow> u32 list" where
  "sha256_rounds ((k, w) # kws) [a, b, c, d, e, f, g, h] =
     (let t1 = h + big_sigma1 e + sha_ch e f g + k + w;
          t2 = big_sigma0 a + sha_maj a b c
      in sha256_rounds kws [t1 + t2, a, b, c, d + t1, e, f, g])"
| "sha256_rounds kws st = st"

definition sha256_compress :: "u32 list \<Rightarrow> byte list \<Rightarrow> u32 list" where
  "sha256_compress st block =
     map2 (+) st (sha256_rounds (zip sha256_K (sha256_schedule 48 (be32 block))) st)"

definition sha256_pad :: "byte list \<Rightarrow> byte list" where
  "sha256_pad m =
     m @ [0x80] @ replicate ((119 - length m mod 64) mod 64) 0 @
     map (\<lambda>i. ucast (drop_bit (8 * (7 - i)) (word_of_nat (8 * length m) :: 64 word))) [0..<8]"

function sha256_blocks :: "u32 list \<Rightarrow> byte list \<Rightarrow> u32 list" where
  "sha256_blocks st m =
     (if length m < 64 then st
      else sha256_blocks (sha256_compress st (take 64 m)) (drop 64 m))"
  by pat_completeness auto
termination
  by (relation "measure (\<lambda>(st, m). length m)") auto

definition sha256 :: "byte list \<Rightarrow> byte list" where
  "sha256 m =
     concat (map (\<lambda>w. map (\<lambda>i. ucast (drop_bit (8 * (3 - i)) w)) [0..<4])
               (sha256_blocks sha256_H0 (sha256_pad m)))"

text \<open>
  \<open>new TextEncoder().encode(data)\<close>: UTF-8. A header value is a byte string, each of
  its code units is below 256 and takes one or two bytes.
\<close>

definition utf8_unit :: "char \<Rightarrow> byte list" where
  "utf8_unit c =
     (let n = (of_char c :: nat)
      in if n < 128 then [word_of_nat n]
         else [word_of_nat (192 + n div 64), word_of_nat (128 + n mod 64)])"

definition TextEncoder_encode :: "string \<Rightarrow> byte list" where
  "TextEncoder_encode data = concat (map utf8_unit data)"

text \<open>\<open>b.toString(16).padStart(2, '0')\<close>, joined.\<close>

definition hex_digit :: "nat \<Rightarrow> char" where
  "hex_digit n = ''0123456789abcdef'' ! (n mod 16)"

definition to_hex :: "byte list \<Rightarrow> string" where
  "to_hex bs = concat (map (\<lambda>b. [hex_digit (unat b div 16), hex_digit (unat b mod 16)]) bs)"

text \<open>
  A vote request as the route sees it: the two headers \<open>generateFingerprint\<close> reads
  (absent when \<open>None\<close>) and the JSON body \<open>{ answerId, clientId }\<close> the embed sends.
\<close>

record VoteRequest =
  cf_connecting_ip :: "string option"
  user_agent :: "string option"
  body_answerId :: ident
  body_clientId :: "string option"

text \<open>\<open>request.headers.get(name) || 'unknown'\<close>: a missing or empty header is unknown.\<close>

definition header_or_unknown :: "string option \<Rightarrow> string" where
  "header_or_unknown h =
     (case h of None \<Rightarrow> ''unknown'' | Some v \<Rightarrow> if v = [] then ''unknown'' else v)"

definition generateFingerprint :: "VoteRequest \<Rightarrow> string" where
  "generateFingerprint request =
     (let ip = header_or_unknown (cf_connecting_ip request);
          userAgent = header_or_unknown (user_agent request);
          data = ip @ '':'' @ userAgent
      in to_hex (sha256 (TextEncoder_encode data)))"

text \<open>
  \<open>voteRequestSchema.safeParse(body)\<close>: the schema is \<open>z.object({ answerId })\<close>, so
  the parsed data keeps \<open>answerId\<close> and drops every other key of the body; the
  \<open>clientId\<close> the route destructures from it is undefined.
\<close>

record VoteRequestData =
  data_answerId :: ident
  data_clientId :: "string option"

definition voteRequestSchema :: "VoteRequest \<Rightarrow> VoteRequestData" where
  "voteRequestSchema request = \<lparr>data_answerId = body_answerId request, data_clientId = None\<rparr>"

text \<open>
  The route \<open>handleVote\<close> of the embed worker. It calls
  \<open>generateFingerprint(c.req.raw, clientId)\<close>; the function has the request as its
  only parameter, so the second argument is not read.
\<close>

definition route_handleVote :: "VoteRequest \<Rightarrow> int \<Rightarrow> state \<Rightarrow> api_response \<times> state" where
  "route_handleVote request now s =
     (let v = voteRequestSchema request;
          voterFingerprint = generateFingerprint request;
          (r, s1) = handleVote (data_answerId v) voterFingerprint now s
      in (voteResponse r, s1))"

section \<open>Notions used by the properties\<close>


text \<open>A vote request is accepted when the actor answers with the new tally.\<close>

fun accepted :: "response \<Rightarrow> bool" where
  "accepted (TallyJson t) = True"
| "accepted r = False"

fun vote_op :: "ident \<times> string \<times> int \<Rightarrow> op" where
  "vote_op (aid, fp, now) = Vote aid fp now"

text \<open>
  The index as the specification words it: an ordered set of poll identifiers in
  insertion order, with idempotent insertion and removal.
\<close>

fun index_spec_step :: "string list \<Rightarrow> op \<Rightarrow> string list" where
  "index_spec_step xs (AddToIndex pid now) = (if pid \<in> set xs then xs else xs @ [pid])"
| "index_spec_step xs (RemoveFromIndex pid) = filter (\<lambda>x. x \<noteq> pid) xs"
| "index_spec_step xs x = xs"

definition listIndex_spec :: "op list \<Rightarrow> string list" where
  "listIndex_spec ops = foldl index_spec_step [] ops"

text \<open>The instants at which the requests of a sequence reach \<open>/add-to-index\<close>.\<close>

fun index_clock :: "op list \<Rightarrow> int list" where
  "index_clock [] = []"
| "index_clock (AddToIndex pid now # xs) = now # index_clock xs"
| "index_clock (x # xs) = index_clock xs"

text \<open>
  What the tables of an actor satisfy in every state the handlers produce: answer
  identifiers are pairwise distinct and were issued by the supply, no fingerprint has
  two vote rows, every vote row references an answer row, votes exist only for a poll
  that is not a draft, and the two optional instants follow the status.
\<close>

definition actor_inv :: "state \<Rightarrow> bool" where
  "actor_inv s =
     (distinct (map answer_id (answers s)) \<and>
      list_all (\<lambda>a. answer_id a < next_uuid s) (answers s) \<and>
      distinct (map voter_fingerprint (votes s)) \<and>
      list_all (\<lambda>v. vote_answer_id v \<in> set (map answer_id (answers s))) (votes s) \<and>
      (case poll s of
         None \<Rightarrow> votes s = []
       | Some p \<Rightarrow>
           (status p = Draft \<longrightarrow> votes s = []) \<and>
           ((published_at p \<noteq> None) = (status p \<noteq> Draft)) \<and>
           ((closed_at p \<noteq> None) = (status p = Closed))))"

section \<open>A run of the actor\<close>

text \<open>
  A poll with the answers A and B is created, published, voted on by two
  fingerprints and closed. The states along this run serve as concrete inputs.
\<close>

definition demo_create :: op where
  "demo_create = Create ''poll-1'' ''Tea or coffee?'' [''A'', ''B''] 100"

definition demo_draft :: state where
  "demo_draft = run [demo_create] init_state"

definition demo_published :: state where
  "demo_published = run [demo_create, Publish 200] init_state"

definition demo_voted :: state where
  "demo_voted = run [demo_create, Publish 200, Vote 0 ''fp1'' 300] init_state"

definition demo_closed :: state where
  "demo_closed = run [demo_create, Publish 200, Vote 0 ''fp1'' 300, Vote 1 ''fp2'' 400, Close 500] init_state"


text \<open>
  The published poll after twenty votes from twenty fingerprints, eleven for A and
  nine for B.
\<close>

definition demo_twenty :: state where
  "demo_twenty =
     run ([demo_create, Publish 200] @
          map vote_op
            [(0, ''v01'', 301), (0, ''v02'', 302), (0, ''v03'', 303), (0, ''v04'',
          304), (0, ''v05'', 305), (0, ''v06'', 306), (0, ''v07'', 307), (0,
          ''v08'', 308), (0, ''v09'', 309), (0, ''v10'', 310), (0, ''v11'', 311),
          (1, ''v12'', 312), (1, ''v13'', 313), (1, ''v14'', 314), (1, ''v15'',
          315), (1, ''v16'', 316), (1, ''v17'', 317), (1, ''v18'', 318), (1,
          ''v19'', 319), (1, ''v20'', 320)])
       init_state"

text \<open>
  A vote request from the address 203.0.113.7 with a given \<open>User-Agent\<close>, answer
  and \<open>clientId\<close>.
\<close>

definition demo_request :: "string \<Rightarrow> ident \<Rightarrow> string \<Rightarrow> VoteRequest" where
  "demo_request ua aid cid =
     \<lparr>cf_connecting_ip = Some ''203.0.113.7'', user_agent = Some ua,
      body_answerId = aid, body_clientId = Some cid\<rparr>"

section \<open>Properties of the handlers\<close>

subsection \<open>The insertion loop\<close>

lemma insert_answers_poll [simp]: "poll (insert_answers ts i s) = poll s"
  by (induction ts arbitrary: i s) (simp_all add: randomUUID_def)

lemma insert_answers_votes [simp]: "votes (insert_answers ts i s) = votes s"
  by (induction ts arbitrary: i s) (simp_all add: randomUUID_def)

lemma insert_answers_poll_index [simp]: "poll_index (insert_answers ts i s) = poll_index s"
  by (induction ts arbitrary: i s) (simp_all add: randomUUID_def)

lemma insert_answers_next_uuid [simp]:
  "next_uuid (insert_answers ts i s) = next_uuid s + length ts"
  by (induction ts arbitrary: i s) (simp_all add: randomUUID_def)

lemma insert_answers_ids:
  "map answer_id (answers (insert_answers ts i s)) =
     map answer_id (answers s) @ [next_uuid s..<next_uuid s + length ts]"
proof (induction ts arbitrary: i s)
  case Nil
  then show ?case by simp
next
  case (Cons t ts)
  have "[next_uuid s..<next_uuid s + Suc (length ts)] =
          next_uuid s # [Suc (next_uuid s)..<Suc (next_uuid s) + length ts]"
    by (simp add: upt_conv_Cons del: upt_Suc)
  then show ?case
    by (simp add: Cons.IH randomUUID_def del: upt_Suc)
qed

lemma insert_answers_texts:
  "map answer_text (answers (insert_answers ts i s)) = map answer_text (answers s) @ ts"
  by (induction ts arbitrary: i s) (simp_all add: randomUUID_def)

lemma insert_answers_orders:
  "map display_order (answers (insert_answers ts i s)) =
     map display_order (answers s) @ [i..<i + length ts]"
proof (induction ts arbitrary: i s)
  case Nil
  then show ?case by simp
next
  case (Cons t ts)
  have "[i..<i + Suc (length ts)] = i # [Suc i..<Suc i + length ts]"
    by (simp add: upt_conv_Cons del: upt_Suc)
  then show ?case
    by (simp add: Cons.IH randomUUID_def del: upt_Suc)
qed

lemma insert_answers_fresh:
  "list_all (\<lambda>a. answer_id a < next_uuid s) (answers s) \<Longrightarrow>
   list_all (\<lambda>a. answer_id a < next_uuid s + length ts) (answers (insert_answers ts i s))"
proof -
  assume h: "list_all (\<lambda>a. answer_id a < next_uuid s) (answers s)"
  have "\<forall>x \<in> set (map answer_id (answers (insert_answers ts i s))). x < next_uuid s + length ts"
    using h unfolding insert_answers_ids by (auto simp: list_all_iff)
  then show ?thesis by (simp add: list_all_iff)
qed

lemma insert_answers_distinct:
  "list_all (\<lambda>a. answer_id a < next_uuid s) (answers s) \<Longrightarrow>
   distinct (map answer_id (answers s)) \<Longrightarrow>
   distinct (map answer_id (answers (insert_answers ts i s)))"
  unfolding insert_answers_ids by (auto simp: list_all_iff)

subsection \<open>The tables stay well formed\<close>

lemma actor_inv_init: "actor_inv init_state"
  by (simp add: actor_inv_def init_state_def)

lemma actor_inv_handleCreate: "actor_inv s \<Longrightarrow> actor_inv (snd (handleCreate pid q ts now s))"
proof (cases "poll s")
  case None
  assume inv: "actor_inv s"
  let ?s1 = "s\<lparr>poll := Some \<lparr>poll_id = pid, question = q, status = Draft,
                                     created_at = now, updated_at = now,
                                     published_at = None, closed_at = None,
                                     reset_count = 0\<rparr>\<rparr>"
  have v: "votes s = []" using inv None by (simp add: actor_inv_def)
  have f: "list_all (\<lambda>a. answer_id a < next_uuid ?s1) (answers ?s1)"
    and d: "distinct (map answer_id (answers ?s1))"
    using inv by (simp_all add: actor_inv_def)
  show ?thesis
    using insert_answers_fresh [OF f, of ts 0] insert_answers_distinct [OF f d, of ts 0] v None
    by (simp add: handleCreate_def actor_inv_def)
next
  case (Some p)
  assume "actor_inv s"
  then show ?thesis using Some by (simp add: handleCreate_def)
qed

lemma actor_inv_handleUpdate: "actor_inv s \<Longrightarrow> actor_inv (snd (handleUpdate q ts now s))"
proof (cases "poll s")
  case None
  assume "actor_inv s"
  then show ?thesis using None by (simp add: handleUpdate_def)
next
  case (Some p)
  assume inv: "actor_inv s"
  show ?thesis
  proof (cases "status p = Draft")
    case False
    then show ?thesis using inv Some by (simp add: handleUpdate_def)
  next
    case True
    have v: "votes s = []" using inv Some True by (simp add: actor_inv_def)
    define s1 where "s1 = (case q of None \<Rightarrow> s
        | Some q' \<Rightarrow> update_poll (\<lambda>r. r\<lparr>question := q', updated_at := now\<rparr>) s)"
    have inv1: "actor_inv s1" and v1: "votes s1 = []" and
      p1: "\<exists>p1. poll s1 = Some p1 \<and> status p1 = Draft \<and> published_at p1 = published_at p \<and> closed_at p1 = closed_at p"
      using inv v Some True by (auto simp: s1_def actor_inv_def update_poll_def split: option.splits)
    show ?thesis
    proof (cases ts)
      case None
      then show ?thesis using inv1 Some True by (simp add: handleUpdate_def s1_def Let_def)
    next
      case (Some ts')
      let ?s2 = "s1\<lparr>answers := []\<rparr>"
      have f: "list_all (\<lambda>a. answer_id a < next_uuid ?s2) (answers ?s2)"
        and d: "distinct (map answer_id (answers ?s2))" by simp_all
      have "actor_inv (update_poll (\<lambda>r. r\<lparr>updated_at := now\<rparr>) (insert_answers ts' 0 ?s2))"
        using insert_answers_fresh [OF f, of ts' 0] insert_answers_distinct [OF f d, of ts' 0] v1 p1 inv1
        by (auto simp: actor_inv_def update_poll_def)
      then show ?thesis using Some \<open>poll s = Some p\<close> True
        by (simp add: handleUpdate_def s1_def Let_def)
    qed
  qed
qed

lemma actor_inv_handlePublish: "actor_inv s \<Longrightarrow> actor_inv (snd (handlePublish now s))"
  by (auto simp: handlePublish_def actor_inv_def update_poll_def Let_def split: option.splits)

lemma actor_inv_handleClose: "actor_inv s \<Longrightarrow> actor_inv (snd (handleClose now s))"
  by (auto simp: handleClose_def actor_inv_def update_poll_def Let_def split: option.splits)

lemma actor_inv_handleDelete: "actor_inv s \<Longrightarrow> actor_inv (snd (handleDelete s))"
  by (auto simp: handleDelete_def actor_inv_def split: option.splits)

lemma actor_inv_handleReset: "actor_inv s \<Longrightarrow> actor_inv (snd (handleReset now s))"
  by (auto simp: handleReset_def actor_inv_def update_poll_def Let_def split: option.splits)

lemma actor_inv_handleVote: "actor_inv s \<Longrightarrow> actor_inv (snd (handleVote aid fp now s))"
  by (auto simp: handleVote_def actor_inv_def randomUUID_def Let_def list_all_iff filter_empty_conv
      split: option.splits intro: less_SucI)

lemma actor_inv_index:
  "actor_inv s \<Longrightarrow> actor_inv (snd (handleAddToIndex pid now s))"
  "actor_inv s \<Longrightarrow> actor_inv (snd (handleRemoveFromIndex pid s))"
  by (auto simp: handleAddToIndex_def handleRemoveFromIndex_def actor_inv_def split: option.splits)

lemma actor_inv_fetch: "actor_inv s \<Longrightarrow> actor_inv (snd (fetch x s))"
  by (cases x)
     (simp_all add: actor_inv_handleCreate actor_inv_handleUpdate actor_inv_handlePublish
        actor_inv_handleClose actor_inv_handleDelete actor_inv_handleReset actor_inv_handleVote
        actor_inv_index)

lemma actor_inv_run: "actor_inv s \<Longrightarrow> actor_inv (run xs s)"
  by (induction xs arbitrary: s) (simp_all add: actor_inv_fetch)

subsection \<open>The counting query\<close>

lemma foldl_add_sum_list: "foldl (\<lambda>sum r. sum + snd r) (n::nat) rows = n + sum_list (map snd rows)"
  by (induction rows arbitrary: n) simp_all

lemma reduce_votes_sum_list: "reduce_votes rows = sum_list (map snd rows)"
  by (simp add: reduce_votes_def foldl_add_sum_list)

lemma sum_list_map_sort_key:
  "sum_list (map (g :: 'a \<Rightarrow> nat) (sort_key (f :: 'a \<Rightarrow> nat) xs)) = sum_list (map g xs)"
proof -
  have "mset (map g (sort_key f xs)) = mset (map g xs)" by simp
  then show ?thesis by (metis sum_mset_sum_list)
qed

lemma reduce_votes_answersWithCounts:
  "reduce_votes (answersWithCounts s) = sum_list (map (\<lambda>a. count_votes s (answer_id a)) (answers s))"
  by (simp add: reduce_votes_sum_list answersWithCounts_def sum_list_map_sort_key comp_def)

lemma count_one:
  "distinct (map f xs) \<Longrightarrow> y \<in> set (map f xs) \<Longrightarrow>
   sum_list (map (\<lambda>x. if y = f x then 1 else 0) xs) = (1::nat)"
proof (induction xs)
  case Nil
  then show ?case by simp
next
  case (Cons x xs)
  show ?case
  proof (cases "y = f x")
    case True
    then have "y \<notin> set (map f xs)" using Cons.prems(1) by simp
    then have "sum_list (map (\<lambda>x. if y = f x then 1 else 0) xs) = (0::nat)"
      by (induction xs) auto
    then show ?thesis using True by simp
  next
    case False
    then show ?thesis using Cons by simp
  qed
qed

lemma sum_counts_eq_length:
  "distinct (map f xs) \<Longrightarrow> list_all (\<lambda>v. g v \<in> set (map f xs)) vs \<Longrightarrow>
   sum_list (map (\<lambda>x. length (filter (\<lambda>v. g v = f x) vs)) xs) = length vs"
proof (induction vs)
  case Nil
  then show ?case by simp
next
  case (Cons v vs)
  have "sum_list (map (\<lambda>x. length (filter (\<lambda>v. g v = f x) (v # vs))) xs) =
        sum_list (map (\<lambda>x. (if g v = f x then 1 else 0) + length (filter (\<lambda>v. g v = f x) vs)) xs)"
    by (rule arg_cong [where f = sum_list]) simp
  also have "\<dots> = sum_list (map (\<lambda>x. if g v = f x then 1 else 0) xs) +
                    sum_list (map (\<lambda>x. length (filter (\<lambda>v. g v = f x) vs)) xs)"
    by (simp add: sum_list_addf)
  also have "\<dots> = 1 + length vs"
    using Cons count_one [of f xs "g v"] by simp
  finally show ?case by simp
qed

lemma total_eq_length_votes:
  "actor_inv s \<Longrightarrow> reduce_votes (answersWithCounts s) = length (votes s)"
  unfolding reduce_votes_answersWithCounts count_votes_def
  by (rule sum_counts_eq_length) (simp_all add: actor_inv_def)

lemma total_zero: "votes s = [] \<Longrightarrow> reduce_votes (answersWithCounts s) = 0"
  by (simp add: reduce_votes_answersWithCounts count_votes_def)

subsection \<open>The vote handler, case by case\<close>

lemma handleVote_eq:
  assumes "poll s = Some p"
  shows "handleVote aid fp now s =
     (if status p = Draft then (JsonError 400 ''Poll not published'', s)
      else if status p = Closed then (JsonError 400 ''Poll is closed'', s)
      else if aid \<notin> answer_id ` set (answers s) then (JsonError 400 ''Invalid answer'', s)
      else if fp \<in> voter_fingerprint ` set (votes s) then (JsonError 409 ''Already voted'', s)
      else (let s' = s\<lparr>next_uuid := Suc (next_uuid s),
                        votes := votes s @ [\<lparr>vote_id = next_uuid s, vote_answer_id = aid,
                                              voter_fingerprint = fp, voted_at = now\<rparr>]\<rparr>
            in (TallyJson (getVoteCountsData s'), s')))"
proof -
  have a: "(filter (\<lambda>a. answer_id a = aid) (answers s) = []) = (aid \<notin> answer_id ` set (answers s))"
    by (auto simp: filter_empty_conv)
  have v: "(filter (\<lambda>v. voter_fingerprint v = fp) (votes s) \<noteq> []) = (fp \<in> voter_fingerprint ` set (votes s))"
    by (auto simp: filter_empty_conv)
  show ?thesis
    using assms unfolding handleVote_def a v
    by (simp add: randomUUID_def getVoteCounts_def Let_def)
qed

lemma handleVote_result:
  "(\<not> accepted (fst (handleVote aid fp now s)) \<and> snd (handleVote aid fp now s) = s \<and>
      (\<forall>p. poll s = Some p \<and> status p = Published \<and> aid \<in> answer_id ` set (answers s)
          \<longrightarrow> fp \<in> voter_fingerprint ` set (votes s))) \<or>
   (accepted (fst (handleVote aid fp now s)) \<and>
      fp \<notin> voter_fingerprint ` set (votes s) \<and>
      poll (snd (handleVote aid fp now s)) = poll s \<and>
      answers (snd (handleVote aid fp now s)) = answers s \<and>
      map voter_fingerprint (votes (snd (handleVote aid fp now s))) =
        map voter_fingerprint (votes s) @ [fp])"
proof (cases "poll s")
  case None
  then show ?thesis by (simp add: handleVote_def)
next
  case (Some p)
  show ?thesis
    unfolding handleVote_eq [OF Some] using Some
    by (cases "status p") (simp_all add: Let_def)
qed

lemma votes_run_accept:
  assumes "distinct (map voter_fingerprint (votes s))"
  shows "distinct (map voter_fingerprint (votes (run (map vote_op calls) s))) \<and>
         length (votes (run (map vote_op calls) s)) =
           length (votes s) + length (filter accepted (responses (map vote_op calls) s)) \<and>
         poll (run (map vote_op calls) s) = poll s \<and>
         answers (run (map vote_op calls) s) = answers s"
  using assms
proof (induction calls arbitrary: s)
  case Nil
  then show ?case by simp
next
  case (Cons c calls)
  obtain aid fp now where c: "c = (aid, fp, now)" by (cases c) auto
  let ?s1 = "snd (handleVote aid fp now s)"
  from handleVote_result [of aid fp now s]
  have d1: "distinct (map voter_fingerprint (votes ?s1))"
    using Cons.prems by auto
  from handleVote_result [of aid fp now s]
  have l1: "length (votes ?s1) = length (votes s) + (if accepted (fst (handleVote aid fp now s)) then 1 else 0)"
    and p1: "poll ?s1 = poll s" and a1: "answers ?s1 = answers s"
    by (auto dest: arg_cong [where f = length])
  from Cons.IH [OF d1] l1 p1 a1 show ?case
    by (simp add: c)
qed

lemma votes_run_all:
  assumes "poll s = Some p" "status p = Published"
    and "\<forall>c \<in> set calls. fst c \<in> answer_id ` set (answers s)"
  shows "set (map voter_fingerprint (votes (run (map vote_op calls) s))) =
           set (map voter_fingerprint (votes s)) \<union> set (map (\<lambda>c. fst (snd c)) calls)"
  using assms
proof (induction calls arbitrary: s)
  case Nil
  then show ?case by simp
next
  case (Cons c calls)
  obtain aid fp now where c: "c = (aid, fp, now)" by (cases c) auto
  let ?s1 = "snd (handleVote aid fp now s)"
  have valid: "aid \<in> answer_id ` set (answers s)" using Cons.prems(3) c by simp
  have s1: "poll ?s1 = Some p" "answers ?s1 = answers s"
    "set (map voter_fingerprint (votes ?s1)) = insert fp (set (map voter_fingerprint (votes s)))"
  proof -
    from handleVote_result [of aid fp now s]
    show "poll ?s1 = Some p" "answers ?s1 = answers s"
      using Cons.prems(1) by auto
    from handleVote_result [of aid fp now s]
    consider "snd (handleVote aid fp now s) = s" "fp \<in> voter_fingerprint ` set (votes s)"
      | "map voter_fingerprint (votes ?s1) = map voter_fingerprint (votes s) @ [fp]"
      using valid Cons.prems(1,2) by blast
    then show "set (map voter_fingerprint (votes ?s1)) =
                 insert fp (set (map voter_fingerprint (votes s)))"
    proof cases
      case 1
      then show ?thesis by auto
    next
      case 2
      then have "set (map voter_fingerprint (votes ?s1)) =
                   set (map voter_fingerprint (votes s) @ [fp])"
        by (rule arg_cong)
      then show ?thesis by simp
    qed
  qed
  have "\<forall>c \<in> set calls. fst c \<in> answer_id ` set (answers ?s1)"
    using Cons.prems(3) s1(2) by simp
  from Cons.IH [OF s1(1) Cons.prems(2) this] s1(3) show ?case
    by (simp add: c)
qed

subsection \<open>The status along a run\<close>




subsection \<open>Double-precision rounding\<close>

lemma round_half_even_error: "\<bar>of_int (round_half_even y) - y\<bar> \<le> 1 / 2"
proof -
  define d where "d = y - of_int \<lfloor>y\<rfloor>"
  have d: "0 \<le> d" "d < 1" unfolding d_def by linarith+
  have y: "y = of_int \<lfloor>y\<rfloor> + d" by (simp add: d_def)
  have "round_half_even y = \<lfloor>y\<rfloor> \<and> d \<le> 1 / 2 \<or>
        round_half_even y = \<lfloor>y\<rfloor> + 1 \<and> 1 / 2 \<le> d"
    by (auto simp: round_half_even_def Let_def d_def)
  then show ?thesis
  proof
    assume a: "round_half_even y = \<lfloor>y\<rfloor> \<and> d \<le> 1 / 2"
    then have "of_int (round_half_even y) - y = - d" using y by simp
    then show ?thesis using a d by simp
  next
    assume a: "round_half_even y = \<lfloor>y\<rfloor> + 1 \<and> 1 / 2 \<le> d"
    then have "of_int (round_half_even y) - y = 1 - d" using y by simp
    then show ?thesis using a d by simp
  qed
qed

lemma round_half_even_of_int [simp]: "round_half_even (of_int n) = n"
  by (simp add: round_half_even_def)

lemma bitlen_pow_bounds:
  assumes "0 < a"
  shows "(2::rat) powi (bitlen a - 1) \<le> of_int a" "of_int a < (2::rat) powi (bitlen a)"
proof -
  from bitlen_bounds [OF assms]
  have 1: "2 ^ nat (bitlen a - 1) \<le> a" and 2: "a < 2 ^ nat (bitlen a)" by auto
  have p: "bitlen a \<ge> 1" using assms bitlen_eq_zero_iff [of a] bitlen_nonneg [of a]
    by (cases "bitlen a = 0") auto
  have "(of_int (2 ^ nat (bitlen a - 1)) :: rat) \<le> of_int a" using 1 by (simp only: of_int_le_iff)
  then show "(2::rat) powi (bitlen a - 1) \<le> of_int a"
    using p by (simp add: power_int_def)
  have "(of_int a :: rat) < of_int (2 ^ nat (bitlen a))" using 2 by (simp only: of_int_less_iff)
  then show "of_int a < (2::rat) powi (bitlen a)"
    using p by (simp add: power_int_def)
qed

lemma binary64_exponent_bounds:
  assumes "0 < x"
  shows "2 powi (binary64_exponent x) \<le> x \<and> x < 2 powi (binary64_exponent x + 1)"
proof -
  obtain a b where q: "quotient_of x = (a, b)" by (cases "quotient_of x")
  then have b: "0 < b" and x: "x = of_int a / of_int b"
    using quotient_of_denom_pos quotient_of_div by auto
  have a: "0 < a" using assms b x by (simp add: zero_less_divide_iff)
  let ?e = "bitlen a - bitlen b"
  note A = bitlen_pow_bounds [OF a] and B = bitlen_pow_bounds [OF b]
  have bpos: "(0::rat) < of_int b" using b by simp
  have lo: "(2::rat) powi (?e - 1) \<le> x"
  proof -
    have "(2::rat) powi (?e - 1) * of_int b \<le> 2 powi (?e - 1) * 2 powi (bitlen b)"
      using B(2) by (intro mult_left_mono) auto
    also have "\<dots> = 2 powi (bitlen a - 1)"
      by (simp flip: power_int_add)
    also have "\<dots> \<le> of_int a" by (rule A(1))
    finally show ?thesis unfolding x using bpos by (simp add: pos_le_divide_eq)
  qed
  have hi: "x < (2::rat) powi (?e + 1)"
  proof -
    have "of_int a < (2::rat) powi (bitlen a)" by (rule A(2))
    also have "\<dots> = 2 powi (?e + 1) * 2 powi (bitlen b - 1)"
      by (simp flip: power_int_add)
    also have "\<dots> \<le> 2 powi (?e + 1) * of_int b"
      using B(1) by (intro mult_left_mono) auto
    finally show ?thesis unfolding x using bpos by (simp add: pos_divide_less_eq)
  qed
  show ?thesis
  proof (cases "(2::rat) powi ?e \<le> x")
    case True
    then show ?thesis using hi by (simp add: binary64_exponent_def q)
  next
    case False
    then have "x < 2 powi ?e" by simp
    then show ?thesis using lo False by (simp add: binary64_exponent_def q)
  qed
qed

lemma binary64_round_error:
  assumes "0 < x" "2 powi (- 1022) \<le> x"
  shows "\<bar>binary64_round x - x\<bar> \<le> x / 2 ^ 53"
proof -
  let ?e = "binary64_exponent x"
  from binary64_exponent_bounds [OF assms(1)]
  have lo: "2 powi ?e \<le> x" and hi: "x < 2 powi (?e + 1)" by auto
  have e: "- 1022 \<le> ?e"
  proof (rule ccontr)
    assume "\<not> - 1022 \<le> ?e"
    then have "?e + 1 \<le> - 1022" by simp
    then have "(2::rat) powi (?e + 1) \<le> 2 powi (- 1022)"
      by (intro power_int_increasing) auto
    with hi assms(2) show False by simp
  qed
  define q :: rat where "q = 2 powi (?e - 52)"
  have qpos: "0 < q" by (simp add: q_def)
  have r: "binary64_round x = of_int (round_half_even (x / q)) * q"
    using assms(1) e by (simp add: binary64_round_def Let_def q_def max_def)
  have "\<bar>binary64_round x - x\<bar> = \<bar>of_int (round_half_even (x / q)) - x / q\<bar> * q"
  proof -
    have "binary64_round x - x = (of_int (round_half_even (x / q)) - x / q) * q"
      using qpos by (simp add: r field_simps)
    then show ?thesis using qpos by (simp add: abs_mult)
  qed
  also have "\<dots> \<le> 1 / 2 * q"
    using round_half_even_error [of "x / q"] qpos by (intro mult_right_mono) auto
  also have "\<dots> = 2 powi ?e / 2 ^ 53"
  proof -
    have "(2::rat) powi (?e - 52) = 2 powi ?e / 2 ^ 52"
      by (simp add: power_int_diff)
    then show ?thesis by (simp add: q_def)
  qed
  also have "\<dots> \<le> x / 2 ^ 53"
    using lo by (simp add: divide_right_mono)
  finally show ?thesis .
qed

lemma binary64_round_nat:
  assumes "n < 2 ^ 53"
  shows "binary64_round (of_nat n) = of_nat n"
proof (cases "n = 0")
  case True
  then show ?thesis by (simp add: binary64_round_def)
next
  case False
  let ?x = "of_nat n :: rat"
  let ?e = "binary64_exponent ?x"
  have pos: "0 < ?x" using False by simp
  from binary64_exponent_bounds [OF pos]
  have lo: "2 powi ?e \<le> ?x" and hi: "?x < 2 powi (?e + 1)" by auto
  have e52: "?e \<le> 52"
  proof (rule ccontr)
    assume "\<not> ?e \<le> 52"
    then have "53 \<le> ?e" by simp
    then have "(2::rat) powi 53 \<le> 2 powi ?e"
      by (intro power_int_increasing) auto
    moreover have "?x < 2 ^ 53" using assms by (metis of_nat_less_iff of_nat_numeral of_nat_power)
    ultimately show False using lo by simp
  qed
  have e0: "0 \<le> ?e"
  proof (rule ccontr)
    assume "\<not> 0 \<le> ?e"
    then have "?e + 1 \<le> 0" by simp
    then have "(2::rat) powi (?e + 1) \<le> 2 powi 0"
      by (intro power_int_increasing) auto
    moreover have "1 \<le> ?x" using False by simp
    ultimately show False using hi by simp
  qed
  define k where "k = nat (52 - ?e)"
  have q: "(2::rat) powi (?e - 52) = 1 / 2 ^ k"
  proof -
    have "?e - 52 = - int k" using e52 by (simp add: k_def)
    then have "(2::rat) powi (?e - 52) = inverse (2 powi int k)"
      by (simp only: power_int_minus)
    then show ?thesis by (simp add: inverse_eq_divide)
  qed
  have m: "max ?e (- 1022) = ?e" using e0 by simp
  have "?x / (1 / 2 ^ k) = of_int (int n * 2 ^ k)" by simp
  then have "round_half_even (?x / (1 / 2 ^ k)) = int n * 2 ^ k"
    by (simp only: round_half_even_of_int)
  then show ?thesis
    using pos False by (simp add: binary64_round_def Let_def m q)
qed

text \<open>
  With fewer than \<open>2^53\<close> votes both operands are exact, and the two roundings of
  the quotient and of the product stay within a relative error of \<open>2^-51\<close>.
\<close>

lemma percentage_rat_error:
  assumes "0 < v" "v \<le> tot" "tot < 2 ^ 53"
  shows "\<bar>binary64_mul (binary64_div (Number v) (Number tot)) 100 -
           of_nat v / of_nat tot * 100\<bar> \<le> of_nat v / of_nat tot * 100 / 2 ^ 51"
proof -
  define x where "x = (of_nat v / of_nat tot :: rat)"
  define y where "y = binary64_round x"
  have tpos: "0 < tot" using assms by simp
  have nv: "Number v = of_nat v" and nt: "Number tot = of_nat tot"
    using assms by (simp_all add: Number_def binary64_round_nat)
  have xpos: "0 < x" using assms(1) tpos by (simp add: x_def)
  have "(of_nat tot :: rat) < 2 ^ 53"
    using assms(3) by (metis of_nat_less_iff of_nat_numeral of_nat_power)
  then have "1 / 2 ^ 53 < 1 / (of_nat tot :: rat)"
    using tpos by (simp add: frac_less2)
  also have "\<dots> \<le> x"
    using assms(1) tpos by (simp add: x_def divide_right_mono)
  finally have xlow: "1 / 2 ^ 53 < x" .
  have small: "(2::rat) powi (- 1022) \<le> 1 / 2 ^ 54"
  proof -
    have "(2::rat) powi (- 1022) \<le> 2 powi (- 54)"
      by (intro power_int_increasing) auto
    then show ?thesis by (simp add: power_int_minus inverse_eq_divide)
  qed
  have "2 powi (- 1022) \<le> x" using xlow small by simp
  from binary64_round_error [OF xpos this]
  have e1: "\<bar>y - x\<bar> \<le> x / 2 ^ 53" by (simp add: y_def)
  then have ylow: "x - x / 2 ^ 53 \<le> y" and yhigh: "y \<le> x + x / 2 ^ 53"
    by linarith+
  have "x / 2 \<le> x - x / 2 ^ 53" using xpos by simp
  then have yhalf: "x / 2 \<le> y" using ylow by simp
  then have ypos: "0 < y * 100" using xpos by simp
  have "1 / 2 ^ 54 \<le> x / 2" using xlow by simp
  then have "2 powi (- 1022) \<le> y * 100"
    using small yhalf xpos by simp
  from binary64_round_error [OF ypos this]
  have e2: "\<bar>binary64_round (y * 100) - y * 100\<bar> \<le> y * 100 / 2 ^ 53" .
  have "binary64_round (y * 100) - x * 100 =
          (binary64_round (y * 100) - y * 100) + (y - x) * 100"
    by (simp add: algebra_simps)
  then have "\<bar>binary64_round (y * 100) - x * 100\<bar> \<le>
          \<bar>binary64_round (y * 100) - y * 100\<bar> + \<bar>(y - x) * 100\<bar>"
    by (simp only: abs_triangle_ineq)
  moreover have "\<bar>(y - x) * 100\<bar> = \<bar>y - x\<bar> * 100"
    by (simp only: abs_mult)
  ultimately have "\<bar>binary64_round (y * 100) - x * 100\<bar> \<le>
          \<bar>binary64_round (y * 100) - y * 100\<bar> + \<bar>y - x\<bar> * 100"
    by (simp only:)
  also have "\<dots> \<le> y * 100 / 2 ^ 53 + x / 2 ^ 53 * 100"
    using e1 e2 by simp
  also have "\<dots> \<le> (x + x / 2 ^ 53) * 100 / 2 ^ 53 + x / 2 ^ 53 * 100"
    using yhigh by (simp add: divide_right_mono)
  also have "\<dots> \<le> x * 100 / 2 ^ 51"
    using xpos by (simp add: field_simps)
  finally show ?thesis
    by (simp add: binary64_mul_def binary64_div_def nv nt x_def y_def)
qed

lemma percentage_of_error:
  assumes "v \<le> tot" "0 < tot" "tot < 2 ^ 53"
  shows "\<bar>percentage_of v tot - real v / real tot * 100\<bar> \<le> real v / real tot * 100 / 2 ^ 51"
proof (cases "v = 0")
  case True
  then show ?thesis
    using assms by (simp add: percentage_of_def Number_def binary64_div_def binary64_mul_def
        binary64_round_def)
next
  case False
  then have "0 < v" by simp
  let ?m = "binary64_mul (binary64_div (Number v) (Number tot)) 100"
  have eq: "percentage_of v tot - real v / real tot * 100 =
              of_rat (?m - of_nat v / of_nat tot * 100)"
    using assms(2) by (simp add: percentage_of_def of_rat_diff of_rat_divide of_rat_mult)
  have bound: "real v / real tot * 100 / 2 ^ 51 = of_rat (of_nat v / of_nat tot * 100 / 2 ^ 51)"
    by (simp add: of_rat_divide of_rat_mult of_rat_power)
  from percentage_rat_error [OF \<open>0 < v\<close> assms(1,3)]
  show ?thesis
    unfolding eq bound abs_of_rat by (simp only: of_rat_less_eq)
qed

lemma percentage_of_zero [simp]: "percentage_of 0 tot = 0"
  by (simp add: percentage_of_def Number_def binary64_div_def binary64_mul_def binary64_round_def)

lemma percentage_of_values:
  "percentage_of (Suc 0) (Suc 0) = 100"
  "percentage_of (Suc 0) (Suc (Suc 0)) = 50"
  "percentage_of 11 20 = 55 + 1 / 2 ^ 47"
  "percentage_of 9 20 = 45"
  by code_simp+

subsection \<open>The states of the example run\<close>

lemmas handler_defs =
  handleCreate_def handleUpdate_def handlePublish_def handleClose_def handleDelete_def
  handleReset_def handleVote_def handleCheckVoted_def handleGet_def getVoteCounts_def
  getVoteCountsData_def answersWithCounts_def count_votes_def reduce_votes_def
  percentage_of_values update_poll_def randomUUID_def init_state_def Let_def

lemma demo_draft_eq:
  "demo_draft = \<lparr>poll = Some \<lparr>poll_id = ''poll-1'', question = ''Tea or coffee?'',
        status = Draft, created_at = 100, updated_at = 100, published_at = None,
        closed_at = None, reset_count = 0\<rparr>,
      answers = [\<lparr>answer_id = 0, answer_text = ''A'', display_order = 0\<rparr>,
                 \<lparr>answer_id = 1, answer_text = ''B'', display_order = 1\<rparr>],
      votes = [], poll_index = [], next_uuid = 2\<rparr>"
  by (simp add: demo_draft_def demo_create_def handler_defs)

lemma demo_published_eq:
  "demo_published = \<lparr>poll = Some \<lparr>poll_id = ''poll-1'', question = ''Tea or coffee?'',
        status = Published, created_at = 100, updated_at = 200, published_at = Some 200,
        closed_at = None, reset_count = 0\<rparr>,
      answers = [\<lparr>answer_id = 0, answer_text = ''A'', display_order = 0\<rparr>,
                 \<lparr>answer_id = 1, answer_text = ''B'', display_order = 1\<rparr>],
      votes = [], poll_index = [], next_uuid = 2\<rparr>"
  by (simp add: demo_published_def demo_create_def handler_defs)

lemma demo_voted_eq:
  "demo_voted = \<lparr>poll = Some \<lparr>poll_id = ''poll-1'', question = ''Tea or coffee?'',
        status = Published, created_at = 100, updated_at = 200, published_at = Some 200,
        closed_at = None, reset_count = 0\<rparr>,
      answers = [\<lparr>answer_id = 0, answer_text = ''A'', display_order = 0\<rparr>,
                 \<lparr>answer_id = 1, answer_text = ''B'', display_order = 1\<rparr>],
      votes = [\<lparr>vote_id = 2, vote_answer_id = 0, voter_fingerprint = ''fp1'', voted_at = 300\<rparr>],
      poll_index = [], next_uuid = 3\<rparr>"
  by (simp add: demo_voted_def demo_create_def handler_defs)

lemma demo_closed_eq:
  "demo_closed = \<lparr>poll = Some \<lparr>poll_id = ''poll-1'', question = ''Tea or coffee?'',
        status = Closed, created_at = 100, updated_at = 500, published_at = Some 200,
        closed_at = Some 500, reset_count = 0\<rparr>,
      answers = [\<lparr>answer_id = 0, answer_text = ''A'', display_order = 0\<rparr>,
                 \<lparr>answer_id = 1, answer_text = ''B'', display_order = 1\<rparr>],
      votes = [\<lparr>vote_id = 2, vote_answer_id = 0, voter_fingerprint = ''fp1'', voted_at = 300\<rparr>,
               \<lparr>vote_id = 3, vote_answer_id = 1, voter_fingerprint = ''fp2'', voted_at = 400\<rparr>],
      poll_index = [], next_uuid = 4\<rparr>"
  by (simp add: demo_closed_def demo_create_def handler_defs)

lemma count_votes_alt:
  "count_votes s a = length (filter (\<lambda>x. x = a) (map vote_answer_id (votes s)))"
  by (simp add: count_votes_def filter_map comp_def)

lemma demo_twenty_tables:
  "poll demo_twenty = Some \<lparr>poll_id = ''poll-1'', question = ''Tea or coffee?'',
        status = Published, created_at = 100, updated_at = 200, published_at = Some 200,
        closed_at = None, reset_count = 0\<rparr>"
  "answers demo_twenty = [\<lparr>answer_id = 0, answer_text = ''A'', display_order = 0\<rparr>,
                          \<lparr>answer_id = 1, answer_text = ''B'', display_order = 1\<rparr>]"
  "map vote_answer_id (votes demo_twenty) =
     [0, 0, 0, 0, 0, 0, 0, 0, 0, 0, 0, 1, 1, 1, 1, 1, 1, 1, 1, 1]"
  by (simp_all add: demo_twenty_def demo_create_def handleCreate_def handlePublish_def
      handleVote_def update_poll_def randomUUID_def init_state_def Let_def)

lemma demo_twenty_get:
  "handleGet demo_twenty =
     PollJson \<lparr>pw_poll = \<lparr>poll_id = ''poll-1'', question = ''Tea or coffee?'',
                  status = Published, created_at = 100, updated_at = 200,
                  published_at = Some 200, closed_at = None, reset_count = 0\<rparr>,
       pw_answers = [\<lparr>vc_answer_id = 0, vc_answer_text = ''A'', vc_display_order = 0,
                       vc_votes = 11, vc_percentage = 55 + 1 / 2 ^ 47\<rparr>,
                     \<lparr>vc_answer_id = 1, vc_answer_text = ''B'', vc_display_order = 1,
                       vc_votes = 9, vc_percentage = 45\<rparr>],
       pw_totalVotes = 20\<rparr>"
proof -
  have c: "count_votes demo_twenty 0 = 11" "count_votes demo_twenty (Suc 0) = 9"
    by (simp_all add: count_votes_alt demo_twenty_tables)
  have a: "answersWithCounts demo_twenty =
             [(\<lparr>answer_id = 0, answer_text = ''A'', display_order = 0\<rparr>, 11),
              (\<lparr>answer_id = 1, answer_text = ''B'', display_order = 1\<rparr>, 9)]"
    by (simp add: answersWithCounts_def demo_twenty_tables c)
  show ?thesis
    by (simp add: handleGet_def demo_twenty_tables a reduce_votes_def percentage_of_values Let_def)
qed

subsection \<open>The index table along a run\<close>

lemma poll_index_fetch:
  "poll_index (snd (fetch x s)) =
     (case x of
        AddToIndex pid now \<Rightarrow>
          if pid \<in> ix_poll_id ` set (poll_index s) then poll_index s
          else poll_index s @ [\<lparr>ix_poll_id = pid, ix_created_at = now\<rparr>]
      | RemoveFromIndex pid \<Rightarrow> filter (\<lambda>r. ix_poll_id r \<noteq> pid) (poll_index s)
      | _ \<Rightarrow> poll_index s)"
  by (cases x)
     (auto simp: handleCreate_def handleUpdate_def handlePublish_def handleClose_def
        handleDelete_def handleReset_def handleVote_def handleAddToIndex_def
        handleRemoveFromIndex_def update_poll_def randomUUID_def Let_def filter_empty_conv
        split: option.splits)

lemma index_ids_step:
  "map ix_poll_id (poll_index (snd (fetch x s))) = index_spec_step (map ix_poll_id (poll_index s)) x"
  unfolding poll_index_fetch by (cases x) (simp_all add: filter_map comp_def)

lemma index_ids_run:
  "map ix_poll_id (poll_index (run xs s)) = foldl index_spec_step (map ix_poll_id (poll_index s)) xs"
  by (induction xs arbitrary: s) (simp_all add: index_ids_step)

lemma index_ids:
  "map ix_poll_id (poll_index (run xs init_state)) = listIndex_spec xs"
  by (simp add: index_ids_run listIndex_spec_def init_state_def)

lemma index_spec_step_distinct: "distinct ys \<Longrightarrow> distinct (index_spec_step ys x)"
  by (cases x) simp_all

lemma index_spec_distinct: "distinct ys \<Longrightarrow> distinct (foldl index_spec_step ys xs)"
  by (induction xs arbitrary: ys) (simp_all add: index_spec_step_distinct)

lemma listIndex_spec_distinct: "distinct (listIndex_spec xs)"
  by (simp add: listIndex_spec_def index_spec_distinct)

lemma index_clock_step:
  assumes "sorted_wrt (<) (map ix_created_at (poll_index s))"
    and "\<forall>r \<in> set (poll_index s). \<forall>t \<in> set (index_clock (x # xs)). ix_created_at r < t"
    and "sorted_wrt (<) (index_clock (x # xs))"
  shows "sorted_wrt (<) (map ix_created_at (poll_index (snd (fetch x s)))) \<and>
         (\<forall>r \<in> set (poll_index (snd (fetch x s))). \<forall>t \<in> set (index_clock xs). ix_created_at r < t) \<and>
         sorted_wrt (<) (index_clock xs)"
  using assms unfolding poll_index_fetch
  by (cases x) (auto simp: sorted_wrt_append sorted_wrt_map sorted_wrt_filter)

lemma index_clock_run:
  assumes "sorted_wrt (<) (map ix_created_at (poll_index s))"
    and "\<forall>r \<in> set (poll_index s). \<forall>t \<in> set (index_clock xs). ix_created_at r < t"
    and "sorted_wrt (<) (index_clock xs)"
  shows "sorted_wrt (<) (map ix_created_at (poll_index (run xs s)))"
  using assms
proof (induction xs arbitrary: s)
  case Nil
  then show ?case by simp
next
  case (Cons x xs)
  from index_clock_step [OF Cons.prems] show ?case
    by (simp add: Cons.IH)
qed

lemma filter_key_single:
  "distinct (map f xs) \<Longrightarrow> k \<in> set xs \<Longrightarrow> filter (\<lambda>x. f k = f x) xs = [k]"
proof (induction xs)
  case Nil
  then show ?case by simp
next
  case (Cons x xs)
  show ?case
  proof (cases "k = x")
    case True
    have "filter (\<lambda>y. f x = f y) xs = []"
      using Cons.prems(1) by (auto simp: filter_empty_conv)
    then show ?thesis using True by simp
  next
    case False
    then have "k \<in> set xs" using Cons.prems(2) by simp
    then have "f k \<in> f ` set xs" by simp
    then have "f k \<noteq> f x" using Cons.prems(1) by auto
    then show ?thesis using Cons False by simp
  qed
qed

lemma sort_key_desc_rev:
  fixes f :: "'a \<Rightarrow> int"
  assumes "sorted_wrt (<) (map f rows)"
  shows "sort_key (\<lambda>r. - f r) rows = rev rows"
proof (rule properties_for_sort_key)
  show "mset (rev rows) = mset rows" by simp
next
  have d: "distinct (map f rows)"
    using assms strict_sorted_iff by blast
  have d': "distinct (map (\<lambda>r. - f r) rows)"
    using d by (simp add: distinct_map inj_on_def)
  fix k assume k: "k \<in> set (rev rows)"
  then have "filter (\<lambda>x. - f k = - f x) rows = [k]"
    using filter_key_single [OF d', of k] by simp
  moreover have "filter (\<lambda>x. - f k = - f x) (rev rows) = rev (filter (\<lambda>x. - f k = - f x) rows)"
    by (simp add: rev_filter)
  ultimately show "filter (\<lambda>x. - f k = - f x) (rev rows) = filter (\<lambda>x. - f k = - f x) rows"
    by simp
next
  have "sorted_wrt (\<lambda>a b. f a < f b) rows"
    using assms by (simp add: sorted_wrt_map)
  then have "sorted_wrt (\<lambda>a b. - f b \<le> - f a) rows"
    by (rule sorted_wrt_mono_rel [rotated]) simp
  then show "sorted (map (\<lambda>r. - f r) (rev rows))"
    by (simp add: sorted_wrt_map sorted_wrt_rev)
qed

lemma select_poll_index_sorted:
  "sorted (rev (map ix_created_at (select_poll_index s)))"
proof -
  have "sorted (map (\<lambda>r. - ix_created_at r) (select_poll_index s))"
    by (simp add: select_poll_index_def)
  then have "sorted_wrt (\<lambda>a b. ix_created_at b \<le> ix_created_at a) (select_poll_index s)"
    by (simp add: sorted_wrt_map)
  then show ?thesis
    by (simp add: sorted_wrt_rev sorted_wrt_map flip: rev_map)
qed

subsection \<open>The checks of the create schema\<close>

lemma createPollSchema_iff:
  "createPollSchema q texts =
     (1 \<le> length q \<and> length q \<le> 500 \<and>
      (\<forall>a \<in> set texts. 1 \<le> length a \<and> length a \<le> 200) \<and>
      distinct texts \<and> 2 \<le> length texts \<and> length texts \<le> 10)"
proof -
  have "(length (remdups texts) = length texts) = distinct texts"
    by (simp add: length_remdups_eq remdups_id_iff_distinct)
  then show ?thesis
    by (auto simp: createPollSchema_def QUESTION_MIN_LENGTH_def QUESTION_MAX_LENGTH_def
        ANSWER_MIN_LENGTH_def ANSWER_MAX_LENGTH_def MIN_ANSWERS_def MAX_ANSWERS_def
        list_all_iff)
qed

lemma handleAddToIndex_tables:
  "poll (snd (handleAddToIndex pid now s)) = poll s"
  "answers (snd (handleAddToIndex pid now s)) = answers s"
  "votes (snd (handleAddToIndex pid now s)) = votes s"
  by (simp_all add: handleAddToIndex_def)

subsection \<open>The shape of a fingerprint\<close>

text \<open>
  The digest has 32 bytes whatever the message, so a fingerprint is a string of 64
  lower-case hexadecimal digits; it is computed from the two headers alone.
\<close>

lemma sha256_rounds_length: "length st = 8 \<Longrightarrow> length (sha256_rounds kws st) = 8"
proof (induction kws st rule: sha256_rounds.induct)
  case (1 k w kws a b c d e f g h)
  then show ?case by (simp add: Let_def)
qed simp_all

lemma sha256_compress_length: "length st = 8 \<Longrightarrow> length (sha256_compress st block) = 8"
  by (simp add: sha256_compress_def sha256_rounds_length)

lemma sha256_blocks_length: "length st = 8 \<Longrightarrow> length (sha256_blocks st m) = 8"
proof (induction st m rule: sha256_blocks.induct)
  case (1 st m)
  show ?case
  proof (cases "length m < 64")
    case True
    then show ?thesis using "1.prems" by simp
  next
    case False
    have "length (sha256_compress st (take 64 m)) = 8"
      using "1.prems" by (rule sha256_compress_length)
    from "1.IH" [OF False this] False show ?thesis
      by (subst sha256_blocks.simps) simp
  qed
qed

lemma concat_words_length:
  "length (concat (map (\<lambda>w. map (g w) [0..<4]) ws)) = 4 * length ws"
  by (induction ws) simp_all

lemma sha256_length: "length (sha256 m) = 32"
proof -
  have "length (sha256_blocks sha256_H0 (sha256_pad m)) = 8"
    by (rule sha256_blocks_length) (simp add: sha256_H0_def)
  then show ?thesis
    unfolding sha256_def by (simp only: concat_words_length)
qed

lemma to_hex_length: "length (to_hex bs) = 2 * length bs"
  by (induction bs) (simp_all add: to_hex_def)

lemma hex_digit_range: "hex_digit n \<in> set ''0123456789abcdef''"
proof -
  have "n mod 16 < length ''0123456789abcdef''" by simp
  then show ?thesis unfolding hex_digit_def by (rule nth_mem)
qed

lemma to_hex_digits: "set (to_hex bs) \<subseteq> set ''0123456789abcdef''"
  using hex_digit_range by (induction bs) (auto simp: to_hex_def)

lemma generateFingerprint_shape:
  "length (generateFingerprint request) = 64 \<and>
   set (generateFingerprint request) \<subseteq> set ''0123456789abcdef''"
  using to_hex_digits by (simp add: generateFingerprint_def Let_def to_hex_length sha256_length)

lemma generateFingerprint_clientId:
  "generateFingerprint (request\<lparr>body_clientId := c\<rparr>) = generateFingerprint request"
  by (simp add: generateFingerprint_def)

lemma demo_request_fingerprint:
  "generateFingerprint (demo_request ua aid cid) = generateFingerprint (demo_request ua 0 ''client-1'')"
  by (simp add: generateFingerprint_def demo_request_def)

lemma demo_fingerprint_mozilla:
  "generateFingerprint (demo_request ''Mozilla/5.0'' 0 ''client-1'') =
     ''3329eae675640d2ad003aaf162234aa2e49934c5bdbc86ade28cd1101686ea6c''"
  by code_simp

lemma demo_fingerprint_curl:
  "generateFingerprint (demo_request ''curl/8.0'' 0 ''client-1'') =
     ''c8dcbc05e9c8eb548d6eb8bbb73b698d1614025bfea5ad6ad936eb9b449b355f''"
  by code_simp

section \<open>The specified properties\<close>

text \<open>
  C1. A vote on an actor that holds a poll runs its checks in a fixed order: a draft
  poll answers 400 \<open>Poll not published\<close> (the specification's \<open>InvalidState\<close>, the
  route's \<open>POLL_NOT_PUBLISHED\<close>); otherwise a closed poll answers 400
  \<open>Poll is closed\<close> (\<open>PollClosed\<close>); otherwise an answer identifier that is not in
  the answers table answers 400 \<open>Invalid answer\<close> (\<open>InvalidAnswer\<close>); otherwise a
  fingerprint that already has a vote row answers 409 \<open>Already voted\<close>
  (\<open>DuplicateVote\<close>). Each refusal leaves the tables as they were. Only when all
  four checks pass is one vote row inserted and the tally of the new tables returned.
\<close>

theorem vote_checks_in_order:
  assumes "poll s = Some p"
  shows "handleVote aid fp now s =
     (if status p = Draft then (JsonError 400 ''Poll not published'', s)
      else if status p = Closed then (JsonError 400 ''Poll is closed'', s)
      else if aid \<notin> answer_id ` set (answers s) then (JsonError 400 ''Invalid answer'', s)
      else if fp \<in> voter_fingerprint ` set (votes s) then (JsonError 409 ''Already voted'', s)
      else (let s' = s\<lparr>next_uuid := Suc (next_uuid s),
                        votes := votes s @ [\<lparr>vote_id = next_uuid s, vote_answer_id = aid,
                                              voter_fingerprint = fp, voted_at = now\<rparr>]\<rparr>
            in (TallyJson (getVoteCountsData s'), s'))) \<and>
     error_code (voteResponse (fst (handleVote aid fp now s))) =
     (if status p = Draft then Some POLL_NOT_PUBLISHED
      else if status p = Closed then Some POLL_CLOSED
      else if aid \<notin> answer_id ` set (answers s) then Some INVALID_ANSWER
      else if fp \<in> voter_fingerprint ` set (votes s) then Some DUPLICATE_VOTE
      else None)"
  unfolding handleVote_eq [OF assms]
  by (simp add: voteErrorResponse_def Let_def)

theorem vote_checks_in_order_witness:
  "handleVote 0 ''fp1'' 600 demo_draft = (JsonError 400 ''Poll not published'', demo_draft) \<and>
   handleVote 0 ''fp3'' 600 demo_closed = (JsonError 400 ''Poll is closed'', demo_closed) \<and>
   handleVote 7 ''fp1'' 600 demo_voted = (JsonError 400 ''Invalid answer'', demo_voted) \<and>
   handleVote 0 ''fp1'' 600 demo_voted = (JsonError 409 ''Already voted'', demo_voted) \<and>
   fst (handleVote 1 ''fp2'' 600 demo_voted) =
     TallyJson \<lparr>totalVotes = 2,
       tally_answers = [\<lparr>answerId = 0, tally_votes = 1, percentage = 50\<rparr>,
                        \<lparr>answerId = 1, tally_votes = 1, percentage = 50\<rparr>]\<rparr>"
proof -
  have d: "poll demo_draft = Some \<lparr>poll_id = ''poll-1'', question = ''Tea or coffee?'',
        status = Draft, created_at = 100, updated_at = 100, published_at = None,
        closed_at = None, reset_count = 0\<rparr>"
    by (simp add: demo_draft_eq)
  have c: "poll demo_closed = Some \<lparr>poll_id = ''poll-1'', question = ''Tea or coffee?'',
        status = Closed, created_at = 100, updated_at = 500, published_at = Some 200,
        closed_at = Some 500, reset_count = 0\<rparr>"
    by (simp add: demo_closed_eq)
  have v: "poll demo_voted = Some \<lparr>poll_id = ''poll-1'', question = ''Tea or coffee?'',
        status = Published, created_at = 100, updated_at = 200, published_at = Some 200,
        closed_at = None, reset_count = 0\<rparr>"
    by (simp add: demo_voted_eq)
  have 1: "handleVote 0 ''fp1'' 600 demo_draft = (JsonError 400 ''Poll not published'', demo_draft)"
    using vote_checks_in_order [OF d, of 0 "''fp1''" 600] by simp
  have 2: "handleVote 0 ''fp3'' 600 demo_closed = (JsonError 400 ''Poll is closed'', demo_closed)"
    using vote_checks_in_order [OF c, of 0 "''fp3''" 600] by simp
  have 3: "handleVote 7 ''fp1'' 600 demo_voted = (JsonError 400 ''Invalid answer'', demo_voted)"
    using vote_checks_in_order [OF v, of 7 "''fp1''" 600] by (simp add: demo_voted_eq)
  have 4: "handleVote 0 ''fp1'' 600 demo_voted = (JsonError 409 ''Already voted'', demo_voted)"
    using vote_checks_in_order [OF v, of 0 "''fp1''" 600] by (simp add: demo_voted_eq)
  have 5: "fst (handleVote 1 ''fp2'' 600 demo_voted) =
     TallyJson \<lparr>totalVotes = 2,
       tally_answers = [\<lparr>answerId = 0, tally_votes = 1, percentage = 50\<rparr>,
                        \<lparr>answerId = 1, tally_votes = 1, percentage = 50\<rparr>]\<rparr>"
    using vote_checks_in_order [OF v, of 1 "''fp2''" 600]
    by (simp add: demo_voted_eq handler_defs)
  from 1 2 3 4 5 show ?thesis by blast
qed

text \<open>
  C2. In every state the actor reaches from its empty start, under any sequence of
  requests, no fingerprint has two vote rows, so the number of vote rows is the
  number of distinct fingerprints in the table. For any list of vote requests sent
  to an actor without votes, in any order and with any repetition, the number of
  accepted requests is the number of vote rows afterwards, which is the number of
  distinct fingerprints among them; and when the poll is published and every request
  names an answer of the poll, it is the number of distinct fingerprints that voted.
\<close>

theorem one_vote_per_fingerprint:
  "distinct (map voter_fingerprint (votes (run xs init_state))) \<and>
   length (votes (run xs init_state)) = card (voter_fingerprint ` set (votes (run xs init_state))) \<and>
   (votes s = [] \<longrightarrow>
      length (filter accepted (responses (map vote_op calls) s)) =
        length (votes (run (map vote_op calls) s)) \<and>
      length (votes (run (map vote_op calls) s)) =
        card (voter_fingerprint ` set (votes (run (map vote_op calls) s)))) \<and>
   (\<forall>p. votes s = [] \<and> poll s = Some p \<and> status p = Published \<and>
        (\<forall>c \<in> set calls. fst c \<in> answer_id ` set (answers s)) \<longrightarrow>
      length (filter accepted (responses (map vote_op calls) s)) =
        card (set (map (\<lambda>c. fst (snd c)) calls)))"
proof -
  have "actor_inv (run xs init_state)"
    by (simp add: actor_inv_run actor_inv_init)
  then have 1: "distinct (map voter_fingerprint (votes (run xs init_state)))"
    by (simp add: actor_inv_def)
  have 2: "length (votes (run xs init_state)) = card (voter_fingerprint ` set (votes (run xs init_state)))"
    using distinct_card [OF 1] by simp
  have 3: "votes s = [] \<longrightarrow>
      length (filter accepted (responses (map vote_op calls) s)) =
        length (votes (run (map vote_op calls) s)) \<and>
      length (votes (run (map vote_op calls) s)) =
        card (voter_fingerprint ` set (votes (run (map vote_op calls) s)))"
  proof
    assume e: "votes s = []"
    then have d: "distinct (map voter_fingerprint (votes s))" by simp
    from votes_run_accept [OF d, of calls] e
    have a: "distinct (map voter_fingerprint (votes (run (map vote_op calls) s)))"
      and b: "length (filter accepted (responses (map vote_op calls) s)) =
        length (votes (run (map vote_op calls) s))" by simp_all
    from distinct_card [OF a] b
    show "length (filter accepted (responses (map vote_op calls) s)) =
        length (votes (run (map vote_op calls) s)) \<and>
      length (votes (run (map vote_op calls) s)) =
        card (voter_fingerprint ` set (votes (run (map vote_op calls) s)))" by simp
  qed
  have 4: "\<forall>p. votes s = [] \<and> poll s = Some p \<and> status p = Published \<and>
        (\<forall>c \<in> set calls. fst c \<in> answer_id ` set (answers s)) \<longrightarrow>
      length (filter accepted (responses (map vote_op calls) s)) =
        card (set (map (\<lambda>c. fst (snd c)) calls))"
  proof (intro allI impI)
    fix p
    assume h: "votes s = [] \<and> poll s = Some p \<and> status p = Published \<and>
        (\<forall>c \<in> set calls. fst c \<in> answer_id ` set (answers s))"
    from h votes_run_all [of s p calls]
    have "set (map voter_fingerprint (votes (run (map vote_op calls) s))) =
            set (map (\<lambda>c. fst (snd c)) calls)" by simp
    then show "length (filter accepted (responses (map vote_op calls) s)) =
        card (set (map (\<lambda>c. fst (snd c)) calls))"
      using 3 h by simp
  qed
  from 1 2 3 4 show ?thesis by blast
qed

theorem one_vote_per_fingerprint_witness:
  "responses (map vote_op [(0, ''fp1'', 1), (0, ''fp1'', 2), (1, ''fp2'', 3), (1, ''fp1'', 4)])
     demo_published =
     [TallyJson \<lparr>totalVotes = 1,
        tally_answers = [\<lparr>answerId = 0, tally_votes = 1, percentage = 100\<rparr>,
                         \<lparr>answerId = 1, tally_votes = 0, percentage = 0\<rparr>]\<rparr>,
      JsonError 409 ''Already voted'',
      TallyJson \<lparr>totalVotes = 2,
        tally_answers = [\<lparr>answerId = 0, tally_votes = 1, percentage = 50\<rparr>,
                         \<lparr>answerId = 1, tally_votes = 1, percentage = 50\<rparr>]\<rparr>,
      JsonError 409 ''Already voted''] \<and>
   length (votes (run (map vote_op [(0, ''fp1'', 1), (0, ''fp1'', 2), (1, ''fp2'', 3), (1, ''fp1'', 4)])
     demo_published)) = 2 \<and>
   card (set (map (\<lambda>c. fst (snd c))
     [(0::nat, ''fp1'', 1::int), (0, ''fp1'', 2), (1, ''fp2'', 3), (1, ''fp1'', 4)])) = 2"
proof -
  let ?calls = "[(0::nat, ''fp1'', 1::int), (0, ''fp1'', 2), (1, ''fp2'', 3), (1, ''fp1'', 4)]"
  have r: "responses (map vote_op ?calls) demo_published =
     [TallyJson \<lparr>totalVotes = 1,
        tally_answers = [\<lparr>answerId = 0, tally_votes = 1, percentage = 100\<rparr>,
                         \<lparr>answerId = 1, tally_votes = 0, percentage = 0\<rparr>]\<rparr>,
      JsonError 409 ''Already voted'',
      TallyJson \<lparr>totalVotes = 2,
        tally_answers = [\<lparr>answerId = 0, tally_votes = 1, percentage = 50\<rparr>,
                         \<lparr>answerId = 1, tally_votes = 1, percentage = 50\<rparr>]\<rparr>,
      JsonError 409 ''Already voted'']"
    by (simp add: demo_published_eq handler_defs)
  have h: "votes demo_published = []"
    "poll demo_published = Some \<lparr>poll_id = ''poll-1'', question = ''Tea or coffee?'',
        status = Published, created_at = 100, updated_at = 200, published_at = Some 200,
        closed_at = None, reset_count = 0\<rparr>"
    "\<forall>c \<in> set ?calls. fst c \<in> answer_id ` set (answers demo_published)"
    by (simp_all add: demo_published_eq)
  from one_vote_per_fingerprint [of "[]" demo_published ?calls] h
  have "length (filter accepted (responses (map vote_op ?calls) demo_published)) =
          length (votes (run (map vote_op ?calls) demo_published))"
    and "length (filter accepted (responses (map vote_op ?calls) demo_published)) =
          card (set (map (\<lambda>c. fst (snd c)) ?calls))"
    by simp_all
  then show ?thesis unfolding r by simp
qed

text \<open>
  C3, as the specification states it: each percentage equals votes / totalVotes * 100.
  With 20 votes, 11 of them for the first answer, \<open>handleGet\<close> returns the double
  55.00000000000001 (55 + 2^-47) for that answer, while 11 / 20 * 100 is 55.
\<close>

theorem percentage_exact_counterexample:
  "handleGet demo_twenty =
     PollJson \<lparr>pw_poll = \<lparr>poll_id = ''poll-1'', question = ''Tea or coffee?'',
                  status = Published, created_at = 100, updated_at = 200,
                  published_at = Some 200, closed_at = None, reset_count = 0\<rparr>,
       pw_answers = [\<lparr>vc_answer_id = 0, vc_answer_text = ''A'', vc_display_order = 0,
                       vc_votes = 11, vc_percentage = 55 + 1 / 2 ^ 47\<rparr>,
                     \<lparr>vc_answer_id = 1, vc_answer_text = ''B'', vc_display_order = 1,
                       vc_votes = 9, vc_percentage = 45\<rparr>],
       pw_totalVotes = 20\<rparr> \<and>
   (55 + 1 / 2 ^ 47 :: real) \<noteq> real 11 / real 20 * 100"
  by (simp add: demo_twenty_get)

text \<open>
  C3, amended: whenever \<open>handleGet\<close> returns a projection, its \<open>totalVotes\<close> is the
  sum of the per-answer counts, each count is the number of vote rows that reference
  the answer, and in every state reached from the empty actor \<open>totalVotes\<close> is the
  number of all vote rows. Each percentage is 0 when \<open>totalVotes\<close> is 0 and
  otherwise the double-precision result of dividing the count by \<open>totalVotes\<close> and
  multiplying by 100; with fewer than 2^53 votes it differs from the exact
  votes / totalVotes * 100 by at most that value times 2^-51. The tally of
  \<open>getVoteCountsData\<close> carries the same numbers.
\<close>

theorem get_counts_consistent:
  assumes "handleGet s = PollJson r"
  shows "pw_totalVotes r = sum_list (map vc_votes (pw_answers r)) \<and>
         (\<forall>a \<in> set (pw_answers r).
            vc_percentage a =
              (if pw_totalVotes r > 0
               then of_rat (binary64_mul (binary64_div (Number (vc_votes a))
                                            (Number (pw_totalVotes r))) 100)
               else 0)) \<and>
         (0 < pw_totalVotes r \<and> pw_totalVotes r < 2 ^ 53 \<longrightarrow>
            (\<forall>a \<in> set (pw_answers r).
               \<bar>vc_percentage a - real (vc_votes a) / real (pw_totalVotes r) * 100\<bar> \<le>
                 real (vc_votes a) / real (pw_totalVotes r) * 100 / 2 ^ 51)) \<and>
         map vc_votes (pw_answers r) =
           map (\<lambda>a. length (filter (\<lambda>v. vote_answer_id v = vc_answer_id a) (votes s))) (pw_answers r) \<and>
         totalVotes (getVoteCountsData s) = pw_totalVotes r \<and>
         map tally_votes (tally_answers (getVoteCountsData s)) = map vc_votes (pw_answers r) \<and>
         map percentage (tally_answers (getVoteCountsData s)) = map vc_percentage (pw_answers r) \<and>
         (\<forall>xs. s = run xs init_state \<longrightarrow> pw_totalVotes r = length (votes s))"
proof -
  from assms obtain p where p: "poll s = Some p"
    by (auto simp: handleGet_def split: option.splits)
  define rows where "rows = answersWithCounts s"
  have r: "r = \<lparr>pw_poll = p,
                pw_answers = map (\<lambda>r. \<lparr>vc_answer_id = answer_id (fst r),
                                        vc_answer_text = answer_text (fst r),
                                        vc_display_order = display_order (fst r),
                                        vc_votes = snd r,
                                        vc_percentage = percentage_of (snd r) (reduce_votes rows)\<rparr>) rows,
                pw_totalVotes = reduce_votes rows\<rparr>"
    using assms p by (simp add: handleGet_def Let_def rows_def)
  have 1: "pw_totalVotes r = sum_list (map vc_votes (pw_answers r))"
    by (simp add: r reduce_votes_sum_list comp_def)
  have pct: "\<forall>a \<in> set (pw_answers r). vc_percentage a = percentage_of (vc_votes a) (pw_totalVotes r)"
    by (auto simp: r)
  have 2: "\<forall>a \<in> set (pw_answers r).
            vc_percentage a =
              (if pw_totalVotes r > 0
               then of_rat (binary64_mul (binary64_div (Number (vc_votes a))
                                            (Number (pw_totalVotes r))) 100)
               else 0)"
    using pct by (simp add: percentage_of_def)
  have le: "\<forall>a \<in> set (pw_answers r). vc_votes a \<le> pw_totalVotes r"
    unfolding 1 by (auto intro: member_le_sum_list)
  have 3: "0 < pw_totalVotes r \<and> pw_totalVotes r < 2 ^ 53 \<longrightarrow>
            (\<forall>a \<in> set (pw_answers r).
               \<bar>vc_percentage a - real (vc_votes a) / real (pw_totalVotes r) * 100\<bar> \<le>
                 real (vc_votes a) / real (pw_totalVotes r) * 100 / 2 ^ 51)"
  proof (intro impI ballI)
    fix a
    assume h: "0 < pw_totalVotes r \<and> pw_totalVotes r < 2 ^ 53" and a: "a \<in> set (pw_answers r)"
    have "vc_votes a \<le> pw_totalVotes r" using le a by blast
    from percentage_of_error [OF this] h
    have "\<bar>percentage_of (vc_votes a) (pw_totalVotes r) -
            real (vc_votes a) / real (pw_totalVotes r) * 100\<bar> \<le>
          real (vc_votes a) / real (pw_totalVotes r) * 100 / 2 ^ 51" by simp
    then show "\<bar>vc_percentage a - real (vc_votes a) / real (pw_totalVotes r) * 100\<bar> \<le>
                 real (vc_votes a) / real (pw_totalVotes r) * 100 / 2 ^ 51"
      using pct a by simp
  qed
  have rows_count: "\<forall>x \<in> set rows. snd x = count_votes s (answer_id (fst x))"
    by (auto simp: rows_def answersWithCounts_def)
  have 4: "map vc_votes (pw_answers r) =
           map (\<lambda>a. length (filter (\<lambda>v. vote_answer_id v = vc_answer_id a) (votes s))) (pw_answers r)"
    using rows_count by (simp add: r comp_def count_votes_def)
  have 5: "totalVotes (getVoteCountsData s) = pw_totalVotes r"
    by (simp add: r getVoteCountsData_def Let_def rows_def)
  have 6: "map tally_votes (tally_answers (getVoteCountsData s)) = map vc_votes (pw_answers r)"
    by (simp add: r getVoteCountsData_def Let_def rows_def comp_def)
  have 7: "map percentage (tally_answers (getVoteCountsData s)) = map vc_percentage (pw_answers r)"
    by (simp add: r getVoteCountsData_def Let_def rows_def comp_def)
  have 8: "\<forall>xs. s = run xs init_state \<longrightarrow> pw_totalVotes r = length (votes s)"
  proof (intro allI impI)
    fix xs assume "s = run xs init_state"
    then have "actor_inv s" by (simp add: actor_inv_run actor_inv_init)
    then show "pw_totalVotes r = length (votes s)"
      by (simp add: r rows_def total_eq_length_votes)
  qed
  from 1 2 3 4 5 6 7 8 show ?thesis by blast
qed

theorem get_counts_consistent_witness:
  "\<exists>r. handleGet demo_twenty = PollJson r \<and> pw_totalVotes r = 20 \<and>
       sum_list (map vc_votes (pw_answers r)) = 20 \<and>
       map vc_votes (pw_answers r) = [11, 9] \<and>
       map vc_percentage (pw_answers r) = [55 + 1 / 2 ^ 47, 45] \<and>
       length (votes demo_twenty) = 20 \<and>
       \<bar>(55 + 1 / 2 ^ 47 :: real) - real 11 / real 20 * 100\<bar> \<le> real 11 / real 20 * 100 / 2 ^ 51"
proof -
  define a where "a = \<lparr>vc_answer_id = 0, vc_answer_text = ''A'', vc_display_order = 0,
                       vc_votes = 11, vc_percentage = 55 + 1 / 2 ^ 47\<rparr>"
  define r where "r = \<lparr>pw_poll = \<lparr>poll_id = ''poll-1'', question = ''Tea or coffee?'',
                  status = Published, created_at = 100, updated_at = 200,
                  published_at = Some 200, closed_at = None, reset_count = 0\<rparr>,
       pw_answers = [a, \<lparr>vc_answer_id = 1, vc_answer_text = ''B'', vc_display_order = 1,
                       vc_votes = 9, vc_percentage = 45\<rparr>],
       pw_totalVotes = 20\<rparr>"
  have g: "handleGet demo_twenty = PollJson r"
    by (simp add: demo_twenty_get r_def a_def)
  from get_counts_consistent [OF g]
  have s: "pw_totalVotes r = sum_list (map vc_votes (pw_answers r))"
    and e: "0 < pw_totalVotes r \<and> pw_totalVotes r < 2 ^ 53 \<longrightarrow>
            (\<forall>a \<in> set (pw_answers r).
               \<bar>vc_percentage a - real (vc_votes a) / real (pw_totalVotes r) * 100\<bar> \<le>
                 real (vc_votes a) / real (pw_totalVotes r) * 100 / 2 ^ 51)"
    and l: "\<forall>xs. demo_twenty = run xs init_state \<longrightarrow> pw_totalVotes r = length (votes demo_twenty)"
    by blast+
  from l demo_twenty_def have len: "pw_totalVotes r = length (votes demo_twenty)"
    by blast
  have "0 < pw_totalVotes r \<and> pw_totalVotes r < 2 ^ 53" by (simp add: r_def)
  with e have "\<forall>a \<in> set (pw_answers r).
               \<bar>vc_percentage a - real (vc_votes a) / real (pw_totalVotes r) * 100\<bar> \<le>
                 real (vc_votes a) / real (pw_totalVotes r) * 100 / 2 ^ 51" by blast
  moreover have "a \<in> set (pw_answers r)" by (simp add: r_def)
  ultimately have "\<bar>vc_percentage a - real (vc_votes a) / real (pw_totalVotes r) * 100\<bar> \<le>
                 real (vc_votes a) / real (pw_totalVotes r) * 100 / 2 ^ 51" by blast
  then have b: "\<bar>(55 + 1 / 2 ^ 47 :: real) - real 11 / real 20 * 100\<bar> \<le>
                  real 11 / real 20 * 100 / 2 ^ 51"
    by (simp add: a_def r_def)
  have t: "pw_totalVotes r = 20" by (simp add: r_def)
  show ?thesis
    using g s len b t by (intro exI [of _ r]) (simp add: r_def a_def)
qed




text \<open>
  C5. On an actor that holds a poll, \<open>handleReset\<close> empties the votes table, adds
  exactly 1 to \<open>reset_count\<close>, leaves the status and the answers alone, and returns
  the projection a following \<open>handleGet\<close> returns, with \<open>totalVotes\<close> 0. A vote
  that was refused as a duplicate before the reset is accepted after it, and is then
  the only vote row.
\<close>

theorem reset_semantics:
  assumes "poll s = Some p"
  shows "\<exists>r s'. handleReset now s = (PollJson r, s') \<and>
           handleGet s' = PollJson r \<and> pw_totalVotes r = 0 \<and>
           votes s' = [] \<and> answers s' = answers s \<and>
           poll s' = Some (p\<lparr>reset_count := reset_count p + 1, updated_at := now\<rparr>) \<and>
           status (pw_poll r) = status p \<and> reset_count (pw_poll r) = reset_count p + 1 \<and>
           (\<forall>aid fp t t'. fst (handleVote aid fp t s) = JsonError 409 ''Already voted'' \<longrightarrow>
              accepted (fst (handleVote aid fp t' s')) \<and>
              map voter_fingerprint (votes (snd (handleVote aid fp t' s'))) = [fp])"
proof -
  define s' where "s' = update_poll (\<lambda>r. r\<lparr>reset_count := reset_count r + 1, updated_at := now\<rparr>)
                      (s\<lparr>votes := []\<rparr>)"
  define r where "r = \<lparr>pw_poll = p\<lparr>reset_count := reset_count p + 1, updated_at := now\<rparr>,
       pw_answers = map (\<lambda>r. \<lparr>vc_answer_id = answer_id (fst r),
                                        vc_answer_text = answer_text (fst r),
                                        vc_display_order = display_order (fst r),
                                        vc_votes = snd r,
                                        vc_percentage = percentage_of (snd r) (reduce_votes (answersWithCounts s'))\<rparr>) (answersWithCounts s'),
       pw_totalVotes = reduce_votes (answersWithCounts s')\<rparr>"
  have v: "votes s' = []" and a: "answers s' = answers s"
    and p': "poll s' = Some (p\<lparr>reset_count := reset_count p + 1, updated_at := now\<rparr>)"
    using assms by (simp_all add: s'_def update_poll_def)
  have g: "handleGet s' = PollJson r"
    by (simp add: handleGet_def p' r_def Let_def)
  have h: "handleReset now s = (PollJson r, s')"
    using assms g by (simp add: handleReset_def Let_def s'_def)
  have z: "pw_totalVotes r = 0"
    by (simp add: r_def total_zero v)
  have again: "\<forall>aid fp t t'. fst (handleVote aid fp t s) = JsonError 409 ''Already voted'' \<longrightarrow>
              accepted (fst (handleVote aid fp t' s')) \<and>
              map voter_fingerprint (votes (snd (handleVote aid fp t' s'))) = [fp]"
  proof (intro allI impI)
    fix aid fp t t'
    assume d: "fst (handleVote aid fp t s) = JsonError 409 ''Already voted''"
    have st: "status p = Published"
      using d assms by (cases "status p") (auto simp: handleVote_def split: if_splits)
    have ans: "filter (\<lambda>a. answer_id a = aid) (answers s) \<noteq> []"
      using d assms st by (auto simp: handleVote_def split: if_splits)
    show "accepted (fst (handleVote aid fp t' s')) \<and>
              map voter_fingerprint (votes (snd (handleVote aid fp t' s'))) = [fp]"
      using st ans by (simp add: handleVote_def p' a v randomUUID_def getVoteCounts_def Let_def)
  qed
  show ?thesis
    using h g z v a p' again by (intro exI [of _ r] exI [of _ s']) (simp add: r_def)
qed

theorem reset_semantics_witness:
  "\<exists>r s'. handleReset 700 demo_voted = (PollJson r, s') \<and> pw_totalVotes r = 0 \<and>
       votes s' = [] \<and> status (pw_poll r) = Published \<and> reset_count (pw_poll r) = 1 \<and>
       fst (handleVote 0 ''fp1'' 600 demo_voted) = JsonError 409 ''Already voted'' \<and>
       accepted (fst (handleVote 0 ''fp1'' 800 s'))"
proof -
  have v: "poll demo_voted = Some \<lparr>poll_id = ''poll-1'', question = ''Tea or coffee?'',
        status = Published, created_at = 100, updated_at = 200, published_at = Some 200,
        closed_at = None, reset_count = 0\<rparr>"
    by (simp add: demo_voted_eq)
  have d: "fst (handleVote 0 ''fp1'' 600 demo_voted) = JsonError 409 ''Already voted''"
    by (simp add: demo_voted_eq handler_defs)
  from reset_semantics [OF v, of 700] obtain r s' where
    h: "handleReset 700 demo_voted = (PollJson r, s')" "pw_totalVotes r = 0" "votes s' = []"
       "status (pw_poll r) = Published" "reset_count (pw_poll r) = 1"
    and again: "\<forall>aid fp t t'. fst (handleVote aid fp t demo_voted) = JsonError 409 ''Already voted'' \<longrightarrow>
              accepted (fst (handleVote aid fp t' s')) \<and>
              map voter_fingerprint (votes (snd (handleVote aid fp t' s'))) = [fp]"
    by auto
  from again d have "accepted (fst (handleVote 0 ''fp1'' 800 s'))" by blast
  with h d show ?thesis by blast
qed

text \<open>
  C6, as the specification states it: deleting succeeds on every actor, also on one
  without a poll. The handler answers 404 \<open>Poll not found\<close> on the empty actor, and
  on the second of two deletes; the CMS route passes the refusal on as
  \<open>POLL_NOT_FOUND\<close>.
\<close>

theorem delete_not_found_counterexample:
  "fst (handleDelete init_state) = JsonError 404 ''Poll not found'' \<and>
   responses [Create ''p1'' ''Tea or coffee?'' [''Tea'', ''Coffee''] 100, Delete, Delete] init_state =
     [Created ''p1'', Deleted, JsonError 404 ''Poll not found''] \<and>
   fst (handleDeletePoll ''p1'' (\<lambda>name. init_state)) =
     ErrorResponse ''Poll not found'' 404 POLL_NOT_FOUND"
  by (simp add: handleDelete_def handleCreate_def init_state_def randomUUID_def
      handleDeletePoll_def)

text \<open>
  C6, amended: on an actor that holds a poll, delete removes the poll, answer and
  vote rows and returns success; on an actor without a poll it answers 404
  \<open>Poll not found\<close> and changes nothing. Deleting twice leaves the same tables as
  deleting once, but the second delete is refused.
\<close>

theorem delete_semantics:
  "handleDelete s =
     (if poll s = None then (JsonError 404 ''Poll not found'', s)
      else (Deleted, s\<lparr>poll := None, answers := [], votes := []\<rparr>)) \<and>
   snd (handleDelete (snd (handleDelete s))) = snd (handleDelete s) \<and>
   (poll s \<noteq> None \<longrightarrow>
      poll (snd (handleDelete s)) = None \<and> answers (snd (handleDelete s)) = [] \<and>
      votes (snd (handleDelete s)) = [] \<and>
      fst (handleDelete (snd (handleDelete s))) = JsonError 404 ''Poll not found'') \<and>
   fst (handleDeletePoll pollId w) =
     (if poll (w pollId) = None then ErrorResponse ''Poll not found'' 404 POLL_NOT_FOUND
      else JsonResponse Deleted 200)"
  by (auto simp: handleDelete_def handleDeletePoll_def Let_def split: option.splits)

theorem delete_semantics_witness:
  "handleDelete demo_voted =
     (Deleted, \<lparr>poll = None, answers = [], votes = [], poll_index = [], next_uuid = 3\<rparr>) \<and>
   handleDelete \<lparr>poll = None, answers = [], votes = [], poll_index = [], next_uuid = 3\<rparr> =
     (JsonError 404 ''Poll not found'',
      \<lparr>poll = None, answers = [], votes = [], poll_index = [], next_uuid = 3\<rparr>)"
proof -
  have 1: "handleDelete demo_voted =
     (Deleted, \<lparr>poll = None, answers = [], votes = [], poll_index = [], next_uuid = 3\<rparr>)"
    using delete_semantics [of demo_voted "''poll-1''" "\<lambda>n. demo_voted"]
    by (simp add: demo_voted_eq)
  have 2: "handleDelete \<lparr>poll = None, answers = [], votes = [], poll_index = [], next_uuid = 3\<rparr> =
     (JsonError 404 ''Poll not found'',
      \<lparr>poll = None, answers = [], votes = [], poll_index = [], next_uuid = 3\<rparr>)"
    using delete_semantics [of "\<lparr>poll = None, answers = [], votes = [], poll_index = [], next_uuid = 3\<rparr>"
        "''poll-1''" "\<lambda>n. demo_voted"]
    by simp
  from 1 2 show ?thesis by blast
qed

text \<open>
  C7. A create request that reaches the CMS route \<open>handleCreatePoll\<close> with a
  question and a list of answer texts is refused with \<open>VALIDATION_ERROR\<close> exactly
  when a constraint fails: the question has 1 to 500 code units, every answer text
  has 1 to 200, the texts are pairwise distinct, and there are 2 to 10 of them. A
  refused request changes nothing. When the constraints hold and the actor addressed
  by the new identifier holds no poll, the poll is created as a draft with the
  question and, in order, one answer row per text, and the route answers 201 with
  the projection of that draft. (The actor's own \<open>handleCreate\<close> does not look at
  the constraints; every create request passes the route's schema first.)
\<close>

theorem create_validation:
  "(error_code (fst (handleCreatePoll q texts pollId now now' w)) = Some VALIDATION_ERROR) =
     (\<not> (1 \<le> length q \<and> length q \<le> 500 \<and>
         (\<forall>a \<in> set texts. 1 \<le> length a \<and> length a \<le> 200) \<and>
         distinct texts \<and> 2 \<le> length texts \<and> length texts \<le> 10)) \<and>
   (error_code (fst (handleCreatePoll q texts pollId now now' w)) = Some VALIDATION_ERROR \<longrightarrow>
      handleCreatePoll q texts pollId now now' w =
        (ErrorResponse ''Validation failed'' 400 VALIDATION_ERROR, w)) \<and>
   (1 \<le> length q \<and> length q \<le> 500 \<and>
    (\<forall>a \<in> set texts. 1 \<le> length a \<and> length a \<le> 200) \<and>
    distinct texts \<and> 2 \<le> length texts \<and> length texts \<le> 10 \<and>
    poll (w pollId) = None \<longrightarrow>
      (\<exists>r. fst (handleCreatePoll q texts pollId now now' w) = JsonResponse (PollJson r) 201 \<and>
           pw_poll r = \<lparr>poll_id = pollId, question = q, status = Draft, created_at = now,
                        updated_at = now, published_at = None, closed_at = None,
                        reset_count = 0\<rparr>) \<and>
      poll (snd (handleCreatePoll q texts pollId now now' w) pollId) =
        Some \<lparr>poll_id = pollId, question = q, status = Draft, created_at = now,
               updated_at = now, published_at = None, closed_at = None, reset_count = 0\<rparr> \<and>
      map answer_text (answers (snd (handleCreatePoll q texts pollId now now' w) pollId)) =
        map answer_text (answers (w pollId)) @ texts \<and>
      map display_order (answers (snd (handleCreatePoll q texts pollId now now' w) pollId)) =
        map display_order (answers (w pollId)) @ [0..<length texts] \<and>
      votes (snd (handleCreatePoll q texts pollId now now' w) pollId) = votes (w pollId))"
proof -
  let ?valid = "1 \<le> length q \<and> length q \<le> 500 \<and>
         (\<forall>a \<in> set texts. 1 \<le> length a \<and> length a \<le> 200) \<and>
         distinct texts \<and> 2 \<le> length texts \<and> length texts \<le> 10"
  let ?p = "\<lparr>poll_id = pollId, question = q, status = Draft, created_at = now,
               updated_at = now, published_at = None, closed_at = None, reset_count = 0\<rparr>"
  have v: "createPollSchema q texts = ?valid" by (rule createPollSchema_iff)
  have bad: "\<not> ?valid \<Longrightarrow> handleCreatePoll q texts pollId now now' w =
        (ErrorResponse ''Validation failed'' 400 VALIDATION_ERROR, w)"
    unfolding handleCreatePoll_def v by simp
  have good_code: "?valid \<Longrightarrow>
      error_code (fst (handleCreatePoll q texts pollId now now' w)) \<noteq> Some VALIDATION_ERROR"
    unfolding handleCreatePoll_def v
    by (cases "poll (w pollId)") (simp_all add: handleCreate_def Let_def)
  have 1: "(error_code (fst (handleCreatePoll q texts pollId now now' w)) = Some VALIDATION_ERROR) =
     (\<not> ?valid)"
    using bad good_code by (cases ?valid) simp_all
  have 2: "error_code (fst (handleCreatePoll q texts pollId now now' w)) = Some VALIDATION_ERROR \<longrightarrow>
      handleCreatePoll q texts pollId now now' w =
        (ErrorResponse ''Validation failed'' 400 VALIDATION_ERROR, w)"
    using 1 bad by blast
  have 3: "?valid \<and> poll (w pollId) = None \<longrightarrow>
      (\<exists>r. fst (handleCreatePoll q texts pollId now now' w) = JsonResponse (PollJson r) 201 \<and>
           pw_poll r = ?p) \<and>
      poll (snd (handleCreatePoll q texts pollId now now' w) pollId) = Some ?p \<and>
      map answer_text (answers (snd (handleCreatePoll q texts pollId now now' w) pollId)) =
        map answer_text (answers (w pollId)) @ texts \<and>
      map display_order (answers (snd (handleCreatePoll q texts pollId now now' w) pollId)) =
        map display_order (answers (w pollId)) @ [0..<length texts] \<and>
      votes (snd (handleCreatePoll q texts pollId now now' w) pollId) = votes (w pollId)"
  proof
    assume h: "?valid \<and> poll (w pollId) = None"
    define s1 where "s1 = insert_answers texts 0 ((w pollId)\<lparr>poll := Some ?p\<rparr>)"
    define w1 where "w1 = w(pollId := s1)"
    define w2 where "w2 = w1(POLL_INDEX_KEY := snd (handleAddToIndex pollId now' (w1 POLL_INDEX_KEY)))"
    have c: "handleCreate pollId q texts now (w pollId) = (Created pollId, s1)"
      using h by (simp add: handleCreate_def s1_def)
    have e: "handleCreatePoll q texts pollId now now' w = (JsonResponse (handleGet (w2 pollId)) 201, w2)"
      unfolding handleCreatePoll_def v using h c by (simp add: w1_def w2_def Let_def)
    have t: "poll (w2 pollId) = poll s1" "answers (w2 pollId) = answers s1"
      "votes (w2 pollId) = votes s1"
      by (simp_all add: w2_def w1_def handleAddToIndex_tables)
    have p: "poll s1 = Some ?p" by (simp add: s1_def)
    have g: "\<exists>r. handleGet (w2 pollId) = PollJson r \<and> pw_poll r = ?p"
      by (simp add: handleGet_def t p Let_def)
    have a: "map answer_text (answers s1) = map answer_text (answers (w pollId)) @ texts"
      by (simp add: s1_def insert_answers_texts)
    have d: "map display_order (answers s1) = map display_order (answers (w pollId)) @ [0..<length texts]"
      by (simp add: s1_def insert_answers_orders)
    have vv: "votes s1 = votes (w pollId)" by (simp add: s1_def)
    show "(\<exists>r. fst (handleCreatePoll q texts pollId now now' w) = JsonResponse (PollJson r) 201 \<and>
           pw_poll r = ?p) \<and>
      poll (snd (handleCreatePoll q texts pollId now now' w) pollId) = Some ?p \<and>
      map answer_text (answers (snd (handleCreatePoll q texts pollId now now' w) pollId)) =
        map answer_text (answers (w pollId)) @ texts \<and>
      map display_order (answers (snd (handleCreatePoll q texts pollId now now' w) pollId)) =
        map display_order (answers (w pollId)) @ [0..<length texts] \<and>
      votes (snd (handleCreatePoll q texts pollId now now' w) pollId) = votes (w pollId)"
      unfolding e using g by (simp add: t p a d vv)
  qed
  from 1 2 3 show ?thesis by blast
qed

theorem create_validation_witness:
  "fst (handleCreatePoll [] [''A'', ''B''] ''p1'' 100 101 (\<lambda>n. init_state)) =
     ErrorResponse ''Validation failed'' 400 VALIDATION_ERROR \<and>
   fst (handleCreatePoll ''Tea or coffee?'' [''A'', ''A''] ''p1'' 100 101 (\<lambda>n. init_state)) =
     ErrorResponse ''Validation failed'' 400 VALIDATION_ERROR \<and>
   fst (handleCreatePoll ''Tea or coffee?'' [''A''] ''p1'' 100 101 (\<lambda>n. init_state)) =
     ErrorResponse ''Validation failed'' 400 VALIDATION_ERROR \<and>
   poll (snd (handleCreatePoll ''Tea or coffee?'' [''A'', ''B''] ''p1'' 100 101 (\<lambda>n. init_state)) ''p1'') =
     Some \<lparr>poll_id = ''p1'', question = ''Tea or coffee?'', status = Draft, created_at = 100,
            updated_at = 100, published_at = None, closed_at = None, reset_count = 0\<rparr> \<and>
   map answer_text
     (answers (snd (handleCreatePoll ''Tea or coffee?'' [''A'', ''B''] ''p1'' 100 101 (\<lambda>n. init_state)) ''p1'')) =
     [''A'', ''B'']"
proof -
  let ?w = "\<lambda>n::string. init_state"
  have 1: "fst (handleCreatePoll [] [''A'', ''B''] ''p1'' 100 101 ?w) =
     ErrorResponse ''Validation failed'' 400 VALIDATION_ERROR"
    using create_validation [of "[]" "[''A'', ''B'']" "''p1''" 100 101 ?w] by auto
  have 2: "fst (handleCreatePoll ''Tea or coffee?'' [''A'', ''A''] ''p1'' 100 101 ?w) =
     ErrorResponse ''Validation failed'' 400 VALIDATION_ERROR"
    using create_validation [of "''Tea or coffee?''" "[''A'', ''A'']" "''p1''" 100 101 ?w] by auto
  have 3: "fst (handleCreatePoll ''Tea or coffee?'' [''A''] ''p1'' 100 101 ?w) =
     ErrorResponse ''Validation failed'' 400 VALIDATION_ERROR"
    using create_validation [of "''Tea or coffee?''" "[''A'']" "''p1''" 100 101 ?w] by auto
  have 4: "poll (snd (handleCreatePoll ''Tea or coffee?'' [''A'', ''B''] ''p1'' 100 101 ?w) ''p1'') =
     Some \<lparr>poll_id = ''p1'', question = ''Tea or coffee?'', status = Draft, created_at = 100,
            updated_at = 100, published_at = None, closed_at = None, reset_count = 0\<rparr> \<and>
   map answer_text
     (answers (snd (handleCreatePoll ''Tea or coffee?'' [''A'', ''B''] ''p1'' 100 101 ?w) ''p1'')) =
     [''A'', ''B'']"
    using create_validation [of "''Tea or coffee?''" "[''A'', ''B'']" "''p1''" 100 101 ?w]
    by (simp add: init_state_def)
  from 1 2 3 4 show ?thesis by blast
qed

text \<open>
  C8, as the specification states it: the index is listed in insertion order. After
  \<open>a\<close> is added at instant 1 and \<open>b\<close> at instant 2 the handler lists \<open>b\<close> before
  \<open>a\<close>, while insertion order is \<open>a\<close>, \<open>b\<close>.
\<close>

theorem index_insertion_order_counterexample:
  "fst (fetch GetIndex (run [AddToIndex ''a'' 1, AddToIndex ''b'' 2] init_state)) =
     IndexJson [''b'', ''a''] \<and>
   listIndex_spec [AddToIndex ''a'' 1, AddToIndex ''b'' 2] = [''a'', ''b''] \<and>
   fst (fetch GetIndex (run [AddToIndex ''a'' 1, AddToIndex ''b'' 2] init_state)) \<noteq>
     IndexJson (listIndex_spec [AddToIndex ''a'' 1, AddToIndex ''b'' 2])"
  by (simp add: handleGetIndex_def select_poll_index_def handleAddToIndex_def init_state_def
      listIndex_spec_def)

text \<open>
  C8, amended: after any sequence of requests, \<open>handleGetIndex\<close> lists exactly the
  poll identifiers that are present (added and not removed since), each once,
  ordered by insertion instant from the latest to the earliest. When the instants of
  the add requests strictly increase along the sequence, the listing is the reverse
  of the insertion order.
\<close>

theorem index_newest_first:
  "handleGetIndex (run xs init_state) =
     IndexJson (map ix_poll_id (select_poll_index (run xs init_state))) \<and>
   mset (map ix_poll_id (select_poll_index (run xs init_state))) = mset (listIndex_spec xs) \<and>
   distinct (map ix_poll_id (select_poll_index (run xs init_state))) \<and>
   sorted (rev (map ix_created_at (select_poll_index (run xs init_state)))) \<and>
   (sorted_wrt (<) (index_clock xs) \<longrightarrow>
      handleGetIndex (run xs init_state) = IndexJson (rev (listIndex_spec xs)))"
proof -
  let ?s = "run xs init_state"
  have m: "mset (map ix_poll_id (select_poll_index ?s)) = mset (listIndex_spec xs)"
  proof -
    have "mset (map ix_poll_id (select_poll_index ?s)) = mset (map ix_poll_id (poll_index ?s))"
      by (simp add: select_poll_index_def)
    then show ?thesis by (simp only: index_ids)
  qed
  have d: "distinct (map ix_poll_id (select_poll_index ?s))"
    using m listIndex_spec_distinct [of xs] by (metis mset_eq_imp_distinct_iff)
  have c: "sorted_wrt (<) (index_clock xs) \<longrightarrow>
      handleGetIndex ?s = IndexJson (rev (listIndex_spec xs))"
  proof
    assume "sorted_wrt (<) (index_clock xs)"
    then have "sorted_wrt (<) (map ix_created_at (poll_index ?s))"
      by (intro index_clock_run) (simp_all add: init_state_def)
    then have "select_poll_index ?s = rev (poll_index ?s)"
      unfolding select_poll_index_def by (rule sort_key_desc_rev)
    moreover have "map ix_poll_id (rev (poll_index ?s)) = rev (map ix_poll_id (poll_index ?s))"
      by (simp add: rev_map)
    ultimately show "handleGetIndex ?s = IndexJson (rev (listIndex_spec xs))"
      by (simp only: handleGetIndex_def index_ids)
  qed
  from m d c select_poll_index_sorted [of ?s] show ?thesis
    by (simp add: handleGetIndex_def)
qed

theorem index_newest_first_witness:
  "index_clock [AddToIndex ''a'' 1, AddToIndex ''b'' 2, AddToIndex ''a'' 3,
                RemoveFromIndex ''a'', AddToIndex ''c'' 4, AddToIndex ''a'' 5] = [1, 2, 3, 4, 5] \<and>
   listIndex_spec [AddToIndex ''a'' 1, AddToIndex ''b'' 2, AddToIndex ''a'' 3,
                RemoveFromIndex ''a'', AddToIndex ''c'' 4, AddToIndex ''a'' 5] = [''b'', ''c'', ''a''] \<and>
   handleGetIndex (run [AddToIndex ''a'' 1, AddToIndex ''b'' 2, AddToIndex ''a'' 3,
                RemoveFromIndex ''a'', AddToIndex ''c'' 4, AddToIndex ''a'' 5] init_state) =
     IndexJson [''a'', ''c'', ''b'']"
proof -
  let ?xs = "[AddToIndex ''a'' 1, AddToIndex ''b'' 2, AddToIndex ''a'' 3,
                RemoveFromIndex ''a'', AddToIndex ''c'' 4, AddToIndex ''a'' 5]"
  have c: "index_clock ?xs = [1, 2, 3, 4, 5]" by simp
  have l: "listIndex_spec ?xs = [''b'', ''c'', ''a'']" by (simp add: listIndex_spec_def)
  have "sorted_wrt (<) (index_clock ?xs)" unfolding c by simp
  with index_newest_first [of ?xs]
  have "handleGetIndex (run ?xs init_state) = IndexJson (rev (listIndex_spec ?xs))" by blast
  then show ?thesis using c l by simp
qed

text \<open>
  C9. The specification derives the fingerprint from the network origin and a
  client-supplied stable token, and the route passes the body's \<open>clientId\<close> to
  \<open>generateFingerprint\<close>. The schema drops \<open>clientId\<close> and the function reads
  the \<open>CF-Connecting-IP\<close> and \<open>User-Agent\<close> headers only. Two requests from
  the same address and browser with different \<open>clientId\<close> get the same
  fingerprint, and the second is refused as a duplicate vote; two requests with the
  same address and \<open>clientId\<close> but different \<open>User-Agent\<close> get different
  fingerprints.
\<close>

theorem fingerprint_ignores_client_token:
  "(\<forall>request c. generateFingerprint (request\<lparr>body_clientId := c\<rparr>) =
                  generateFingerprint request) \<and>
   length (generateFingerprint (demo_request ''Mozilla/5.0'' 0 ''client-1'')) = 64 \<and>
   body_clientId (demo_request ''Mozilla/5.0'' 0 ''client-1'') \<noteq>
     body_clientId (demo_request ''Mozilla/5.0'' 0 ''client-2'') \<and>
   generateFingerprint (demo_request ''Mozilla/5.0'' 0 ''client-1'') =
     generateFingerprint (demo_request ''Mozilla/5.0'' 0 ''client-2'') \<and>
   error_code (fst (route_handleVote (demo_request ''Mozilla/5.0'' 0 ''client-1'') 300
                      demo_published)) = None \<and>
   fst (route_handleVote (demo_request ''Mozilla/5.0'' 0 ''client-2'') 400
          (snd (route_handleVote (demo_request ''Mozilla/5.0'' 0 ''client-1'') 300
                  demo_published))) =
     ErrorResponse ''Already voted'' 409 DUPLICATE_VOTE \<and>
   generateFingerprint (demo_request ''curl/8.0'' 0 ''client-1'') \<noteq>
     generateFingerprint (demo_request ''Mozilla/5.0'' 0 ''client-1'')"
proof -
  let ?fp = "''3329eae675640d2ad003aaf162234aa2e49934c5bdbc86ade28cd1101686ea6c''"
  have m1: "generateFingerprint (demo_request ''Mozilla/5.0'' 0 ''client-1'') = ?fp"
    by (rule demo_fingerprint_mozilla)
  have m2: "generateFingerprint (demo_request ''Mozilla/5.0'' 0 ''client-2'') = ?fp"
    using demo_request_fingerprint [of "''Mozilla/5.0''" 0 "''client-2''"] m1 by simp
  have 1: "body_clientId (demo_request ''Mozilla/5.0'' 0 ''client-1'') \<noteq>
     body_clientId (demo_request ''Mozilla/5.0'' 0 ''client-2'')"
    by (simp add: demo_request_def)
  have 2: "generateFingerprint (demo_request ''Mozilla/5.0'' 0 ''client-1'') =
     generateFingerprint (demo_request ''Mozilla/5.0'' 0 ''client-2'')"
    using m1 m2 by simp
  have a: "body_answerId (demo_request ''Mozilla/5.0'' 0 ''client-1'') = 0"
    "body_answerId (demo_request ''Mozilla/5.0'' 0 ''client-2'') = 0"
    by (simp_all add: demo_request_def)
  have p: "poll demo_published = Some \<lparr>poll_id = ''poll-1'', question = ''Tea or coffee?'',
        status = Published, created_at = 100, updated_at = 200, published_at = Some 200,
        closed_at = None, reset_count = 0\<rparr>"
    by (simp add: demo_published_eq)
  define s1 where "s1 = demo_published\<lparr>next_uuid := 3,
      votes := [\<lparr>vote_id = 2, vote_answer_id = 0, voter_fingerprint = ?fp, voted_at = 300\<rparr>]\<rparr>"
  have v1: "handleVote 0 ?fp 300 demo_published = (TallyJson (getVoteCountsData s1), s1)"
    unfolding handleVote_eq [OF p] by (simp add: demo_published_eq s1_def Let_def)
  have r1: "route_handleVote (demo_request ''Mozilla/5.0'' 0 ''client-1'') 300 demo_published =
     (JsonResponse (TallyJson (getVoteCountsData s1)) 200, s1)"
    by (simp add: route_handleVote_def voteRequestSchema_def a m1 v1)
  have p1: "poll s1 = Some \<lparr>poll_id = ''poll-1'', question = ''Tea or coffee?'',
        status = Published, created_at = 100, updated_at = 200, published_at = Some 200,
        closed_at = None, reset_count = 0\<rparr>"
    by (simp add: s1_def p)
  have v2: "handleVote 0 ?fp 400 s1 = (JsonError 409 ''Already voted'', s1)"
    unfolding handleVote_eq [OF p1] by (simp add: demo_published_eq s1_def)
  have 3: "error_code (fst (route_handleVote (demo_request ''Mozilla/5.0'' 0 ''client-1'') 300
                      demo_published)) = None"
    by (simp add: r1)
  have 4: "fst (route_handleVote (demo_request ''Mozilla/5.0'' 0 ''client-2'') 400
          (snd (route_handleVote (demo_request ''Mozilla/5.0'' 0 ''client-1'') 300
                  demo_published))) =
     ErrorResponse ''Already voted'' 409 DUPLICATE_VOTE"
  proof -
    have "route_handleVote (demo_request ''Mozilla/5.0'' 0 ''client-2'') 400 s1 =
            (ErrorResponse ''Already voted'' 409 DUPLICATE_VOTE, s1)"
      by (simp add: route_handleVote_def voteRequestSchema_def a m2 v2 voteErrorResponse_def)
    then show ?thesis by (simp add: r1)
  qed
  have 5: "generateFingerprint (demo_request ''curl/8.0'' 0 ''client-1'') \<noteq>
     generateFingerprint (demo_request ''Mozilla/5.0'' 0 ''client-1'')"
    unfolding m1 demo_fingerprint_curl by simp
  have 6: "\<forall>request c. generateFingerprint (request\<lparr>body_clientId := c\<rparr>) =
                  generateFingerprint request"
    by (simp add: generateFingerprint_clientId)
  have 7: "length (generateFingerprint (demo_request ''Mozilla/5.0'' 0 ''client-1'')) = 64"
    by (simp add: generateFingerprint_shape)
  from 1 2 3 4 5 6 7 show ?thesis by blast
qed

text \<open>
  C10. In every state reached from the empty actor, a poll in draft status has no
  vote rows, an actor without a poll has none either, and every vote row references
  an answer row; this also holds right after \<open>handleUpdate\<close> has replaced the
  answers of a draft, so the replacement never orphans a vote.
\<close>

theorem draft_has_no_votes:
  "(\<forall>p. poll (run xs init_state) = Some p \<longrightarrow> status p = Draft \<longrightarrow> votes (run xs init_state) = []) \<and>
   (poll (run xs init_state) = None \<longrightarrow> votes (run xs init_state) = []) \<and>
   list_all (\<lambda>v. vote_answer_id v \<in> answer_id ` set (answers (run xs init_state)))
     (votes (run xs init_state)) \<and>
   list_all (\<lambda>v. vote_answer_id v \<in>
                answer_id ` set (answers (snd (handleUpdate q ts now (run xs init_state)))))
     (votes (snd (handleUpdate q ts now (run xs init_state))))"
proof -
  have i: "actor_inv (run xs init_state)"
    by (simp add: actor_inv_run actor_inv_init)
  then have u: "actor_inv (snd (handleUpdate q ts now (run xs init_state)))"
    by (rule actor_inv_handleUpdate)
  show ?thesis
    using i u by (auto simp: actor_inv_def split: option.splits)
qed

theorem draft_has_no_votes_witness:
  "\<exists>p. poll demo_draft = Some p \<and> status p = Draft \<and> votes demo_draft = [] \<and>
       votes (snd (handleUpdate None (Some [''C'', ''D'']) 150 demo_draft)) = []"
proof -
  have p: "poll demo_draft = Some \<lparr>poll_id = ''poll-1'', question = ''Tea or coffee?'',
        status = Draft, created_at = 100, updated_at = 100, published_at = None,
        closed_at = None, reset_count = 0\<rparr>"
    by (simp add: demo_draft_eq)
  from draft_has_no_votes [of "[demo_create]" None "Some [''C'', ''D'']" 150, folded demo_draft_def] p
  have "votes demo_draft = []" by simp
  then show ?thesis using p
    by (simp add: handleUpdate_def update_poll_def randomUUID_def Let_def)
qed

end
